theory Spec2Isabelle
  imports Main
begin

section \<open>Python values, exceptions and dictionaries\<close>

text \<open>
  The parser of \<^verbatim>\<open>parser.py\<close> handles Python objects of a few kinds: the value
  \<^verbatim>\<open>None\<close> (which the module uses as its \<^verbatim>\<open>ASSIGNMENT\<close> marker), strings, and the
  lists and dictionaries that the evaluation of a bracketed right-hand side returns, whose
  leaves may be numbers or booleans before \<^verbatim>\<open>stringize\<close> has run.

  The evaluation runs in the scope of \<^verbatim>\<open>parse_values\<close>, so the value it returns can hold
  the list \<^verbatim>\<open>values\<close> of the statement being read, the object itself and not a copy:
  \<open>PValues\<close> stands for that list inside such a value.
\<close>

datatype atom = ANone | ABool bool | AInt int

datatype pyval =
    PAtom atom
  | PStr string
  | PList "pyval list"
  | PDict "(pyval \<times> pyval) list"
  | PValues

text \<open>\<^verbatim>\<open>ASSIGNMENT = None\<close>\<close>

definition ASSIGNMENT :: pyval where
  "ASSIGNMENT = PAtom ANone"

text \<open>
  The exceptions that cross the functions of the module. \<^verbatim>\<open>TestSpecificationError\<close> is the
  module's own; \<^verbatim>\<open>TokenError\<close> and \<^verbatim>\<open>SyntaxError\<close> are the two that \<^verbatim>\<open>parse_values\<close>
  catches; any other exception of a library call passes through every function uncaught.
\<close>

datatype exn =
    TestSpecificationError string
  | TokenError
  | SyntaxError
  | OtherException string

text \<open>
  Where a library function, or the state of the parser, goes beyond what this model
  expresses, the model stops with this exception, which the module does not catch: it says
  nothing about the module there.
\<close>

definition outside :: exn where
  "outside = OtherException ''outside the modelled fragment''"

text \<open>
  A Python \<^verbatim>\<open>dict\<close> with string keys, in insertion order: storing under a key that is
  present keeps its position, storing under a new key appends.
\<close>

type_synonym dict = "(string \<times> pyval) list"

fun setitem :: "dict \<Rightarrow> string \<Rightarrow> pyval \<Rightarrow> dict" where
  "setitem [] k v = [(k, v)]"
| "setitem ((k', v') # d) k v = (if k' = k then (k, v) # d else (k', v') # setitem d k v)"

definition contains :: "dict \<Rightarrow> string \<Rightarrow> bool" where
  "contains d k = (map_of d k \<noteq> None)"

text \<open>\<^verbatim>\<open>d.update(other)\<close> stores the items of \<^verbatim>\<open>other\<close> into \<^verbatim>\<open>d\<close>, in order.\<close>

fun update :: "dict \<Rightarrow> dict \<Rightarrow> dict" where
  "update d [] = d"
| "update d ((k, v) # other) = update (setitem d k v) other"

section \<open>Text of numbers\<close>

text \<open>\<^verbatim>\<open>str(n)\<close> of an integer: its decimal digits, with a minus sign when negative.\<close>

definition digit_char :: "nat \<Rightarrow> char" where
  "digit_char d = ''0123456789'' ! (d mod 10)"

function str_nat :: "nat \<Rightarrow> string" where
  "str_nat n = (if n < 10 then [digit_char n] else str_nat (n div 10) @ [digit_char (n mod 10)])"
  by pat_completeness auto
termination
  by (relation "measure id") auto

declare str_nat.simps [simp del]

definition str_int :: "int \<Rightarrow> string" where
  "str_int i = (if i < 0 then CHR ''-'' # str_nat (nat (- i)) else str_nat (nat i))"

fun str_atom :: "atom \<Rightarrow> string" where
  "str_atom ANone = ''None''"
| "str_atom (ABool True) = ''True''"
| "str_atom (ABool False) = ''False''"
| "str_atom (AInt i) = str_int i"

section \<open>stringize\<close>

text \<open>
  \<^verbatim>\<open>
  def stringize(x):
      if isinstance(x, dict):
          for (k,v) in x.items():
              x[k] = stringize(v)
      elif isinstance(x, list):
          for i in range(len(x)):
              x[i] = stringize(x[i])
      elif not isinstance(x, str):
          x = str(x)
      return x
  \<close>
  The keys of a dictionary are left as they are; only its values are rewritten. A list
  is rewritten in place: where the value holds the list \<^verbatim>\<open>values\<close> itself, that list is
  rewritten (see \<open>tokens_loop\<close>) and stays where it is held.
\<close>

fun stringize :: "pyval \<Rightarrow> pyval" where
  "stringize (PDict kvs) = PDict (map (\<lambda>(k, v). (k, stringize v)) kvs)"
| "stringize (PList xs) = PList (map stringize xs)"
| "stringize (PStr s) = PStr s"
| "stringize (PAtom a) = PStr (str_atom a)"
| "stringize PValues = PValues"

text \<open>
  The value holds the list \<^verbatim>\<open>values\<close> at a place that \<^verbatim>\<open>stringize\<close> visits: as an item
  of a list or as the value of a dictionary entry, at any depth, or as the value itself.
\<close>

fun holds_values :: "pyval \<Rightarrow> bool" where
  "holds_values PValues = True"
| "holds_values (PList xs) = (\<exists>x \<in> set xs. holds_values x)"
| "holds_values (PDict kvs) = (\<exists>kv \<in> set kvs. holds_values (snd kv))"
| "holds_values (PStr s) = False"
| "holds_values (PAtom a) = False"

text \<open>
  Two readings of "all leaves are strings". \<open>string_items\<close> looks where \<^verbatim>\<open>stringize\<close>
  looks: at the items of lists and at the values of dictionary entries. \<open>only_strings\<close>
  looks at the keys of dictionaries as well.
\<close>

fun string_items :: "pyval \<Rightarrow> bool" where
  "string_items (PStr s) = True"
| "string_items (PAtom a) = False"
| "string_items (PList xs) = (\<forall>x \<in> set xs. string_items x)"
| "string_items (PDict kvs) = (\<forall>kv \<in> set kvs. string_items (snd kv))"
| "string_items PValues = False"

fun only_strings :: "pyval \<Rightarrow> bool" where
  "only_strings (PStr s) = True"
| "only_strings (PAtom a) = False"
| "only_strings (PList xs) = (\<forall>x \<in> set xs. only_strings x)"
| "only_strings (PDict kvs) = (\<forall>kv \<in> set kvs. only_strings (fst kv) \<and> only_strings (snd kv))"
| "only_strings PValues = False"

section \<open>parse_line_assignments\<close>

text \<open>
  \<^verbatim>\<open>str.isidentifier\<close>. On a text of ASCII characters: a letter or underscore, then
  letters, digits and underscores. On a text with a character beyond ASCII the answer rests
  on the tables of Unicode, which are the library's: the model leaves it unspecified.
\<close>

definition is_alpha :: "char \<Rightarrow> bool" where
  "is_alpha c = (c \<in> set ''abcdefghijklmnopqrstuvwxyzABCDEFGHIJKLMNOPQRSTUVWXYZ_'')"

definition is_digit :: "char \<Rightarrow> bool" where
  "is_digit c = (c \<in> set ''0123456789'')"

definition ascii :: "string \<Rightarrow> bool" where
  "ascii w = (\<forall>c \<in> set w. \<not> digit7 c)"

definition unicode_isidentifier :: "string \<Rightarrow> bool" where
  "unicode_isidentifier = (SOME f. True)"

lemma unicode_isidentifier_unspecified [code]:
  "unicode_isidentifier w = Code.abort (STR ''isidentifier beyond ASCII'') (\<lambda>_. unicode_isidentifier w)"
  by simp

fun ascii_isidentifier :: "string \<Rightarrow> bool" where
  "ascii_isidentifier [] = False"
| "ascii_isidentifier (c # cs) = (is_alpha c \<and> (\<forall>x \<in> set cs. is_alpha x \<or> is_digit x))"

definition isidentifier :: "string \<Rightarrow> bool" where
  "isidentifier w = (if ascii w then ascii_isidentifier w else unicode_isidentifier w)"

text \<open>
  The loop of lines 67-68, on the list \<^verbatim>\<open>values\<close> and the list \<^verbatim>\<open>assignment_rhs\<close> built so far:
  \<^verbatim>\<open>
  while values and values[1:2] != [ASSIGNMENT]:
      assignment_rhs.append(values.pop(0))
  \<close>
\<close>

fun greedy :: "pyval list \<Rightarrow> pyval list \<Rightarrow> pyval list \<times> pyval list" where
  "greedy rhs [] = (rhs, [])"
| "greedy rhs (v # values) =
     (if take 1 values \<noteq> [ASSIGNMENT] then greedy (rhs @ [v]) values else (rhs, v # values))"

text \<open>
  Lines 63-68, entered with \<^verbatim>\<open>values\<close> not empty (line 56 has raised otherwise): the value
  bound and the list \<^verbatim>\<open>values\<close> left.
  \<^verbatim>\<open>
  if len(values) == 1 or values[2:3] == [ASSIGNMENT]:
      assignment_rhs = values.pop(0)
  else:
      assignment_rhs = []
      while ...
  \<close>
\<close>

fun extract_rhs :: "pyval list \<Rightarrow> pyval \<times> pyval list" where
  "extract_rhs [] = (PList [], [])"
| "extract_rhs (v # values) =
     (if length (v # values) = 1 \<or> take 1 (drop 2 (v # values)) = [ASSIGNMENT]
      then (v, values)
      else (case greedy [] (v # values) of (rhs, rest) \<Rightarrow> (PList rhs, rest)))"

lemma greedy_length: "length (snd (greedy rhs values)) \<le> length values"
  by (induction "values" arbitrary: rhs) (auto simp: le_SucI)

lemma extract_rhs_length: "length (snd (extract_rhs values)) \<le> length values"
proof (cases "values")
  case Nil
  then show ?thesis by simp
next
  case (Cons v vs)
  have "length (snd (greedy [] (v # vs))) \<le> length (v # vs)"
    by (rule greedy_length)
  then show ?thesis using Cons
    by (auto split: prod.splits)
qed

text \<open>Python's truth value of \<^verbatim>\<open>last_word\<close>, which is \<^verbatim>\<open>None\<close> or a string.\<close>

fun truthy :: "string option \<Rightarrow> bool" where
  "truthy None = False"
| "truthy (Some w) = (w \<noteq> [])"

definition quote :: string where
  "quote = [CHR 0x27]"

text \<open>
  The function, as a loop over \<^verbatim>\<open>values\<close> with the state \<^verbatim>\<open>assignments\<close> and
  \<^verbatim>\<open>last_word\<close> (lines 50-79), and what follows the loop (lines 80-84).
\<close>

definition finish :: "string \<Rightarrow> dict \<Rightarrow> string option \<Rightarrow> exn + dict" where
  "finish error_prefix assignments last_word =
     (case last_word of
        None \<Rightarrow> Inr assignments
      | Some w \<Rightarrow>
          if w = [] then Inr assignments
          else if contains assignments ''label''
          then Inl (TestSpecificationError (error_prefix @ ''error - multiple labels''))
          else Inr (setitem assignments ''label'' (PStr w)))"

function assignments_loop :: "string \<Rightarrow> pyval list \<Rightarrow> dict \<Rightarrow> string option \<Rightarrow> exn + dict" where
  "assignments_loop error_prefix [] assignments last_word =
     finish error_prefix assignments last_word"
| "assignments_loop error_prefix (value # values) assignments last_word =
     (if value = ASSIGNMENT then
        (case last_word of
           None \<Rightarrow> Inl (TestSpecificationError (error_prefix @ ''syntax error in assignment''))
         | Some w \<Rightarrow>
             if w = [] \<or> \<not> isidentifier w \<or> values = [] \<or> take 1 values = [ASSIGNMENT]
             then Inl (TestSpecificationError (error_prefix @ ''syntax error in assignment''))
             else if contains assignments w
             then Inl (TestSpecificationError
                    (error_prefix @ ''error - multiple assignments to variable '' @ quote @ w @ quote))
             else assignments_loop error_prefix (snd (extract_rhs values))
                    (setitem assignments w (fst (extract_rhs values))) None)
      else
        (case value of
           PStr s \<Rightarrow>
             if truthy last_word then
               (if contains assignments ''label''
                then Inl (TestSpecificationError (error_prefix @ ''error - multiple labels''))
                else assignments_loop error_prefix values
                       (setitem assignments ''label'' (PStr (the last_word))) (Some s))
             else assignments_loop error_prefix values assignments (Some s)
         | _ \<Rightarrow> Inl (TestSpecificationError (error_prefix @ ''error - invalid test specification''))))"
  by pat_completeness auto
termination
proof (relation "measure (\<lambda>(p, values, a, w). length values)")
  show "wf (measure (\<lambda>(p, values, a, w). length values))" by simp
next
  fix error_prefix :: string and "value" :: pyval and "values" :: "pyval list"
    and assignments :: dict and last_word :: "string option" and w :: string
  have "length (snd (extract_rhs values)) \<le> length values"
    by (rule extract_rhs_length)
  then show "((error_prefix, snd (extract_rhs values), setitem assignments w (fst (extract_rhs values)), None),
          (error_prefix, value # values, assignments, last_word))
         \<in> measure (\<lambda>(p, values, a, w). length values)"
    by simp
qed auto

definition parse_line_assignments :: "pyval list \<Rightarrow> string \<Rightarrow> exn + dict" where
  "parse_line_assignments values error_prefix = assignments_loop error_prefix values [] None"

section \<open>parse_stream: the statements\<close>

text \<open>
  Lines 35-38: the dictionary appended to \<^verbatim>\<open>tests\<close> for a statement with a label.
  \<^verbatim>\<open>
  test = global_variables.copy()
  test['source_name'] = str(source_name)
  test['line_number'] = str(line_number)
  test.update(parameters)
  \<close>
\<close>

definition descriptor :: "string \<Rightarrow> nat \<Rightarrow> dict \<Rightarrow> dict \<Rightarrow> dict" where
  "descriptor source_name line_number global_variables parameters =
     update (setitem (setitem global_variables ''source_name'' (PStr source_name))
               ''line_number'' (PStr (str_nat line_number)))
       parameters"

text \<open>
  The loop of lines 28-39 over the list that \<^verbatim>\<open>parse_values\<close> has returned, with the state
  \<^verbatim>\<open>tests\<close> and \<^verbatim>\<open>global_variables\<close>; the final state is returned whole.
\<close>

fun statements_loop ::
  "string \<Rightarrow> (nat \<times> pyval list) list \<Rightarrow> dict list \<Rightarrow> dict \<Rightarrow> exn + (dict list \<times> dict)" where
  "statements_loop source_name [] tests global_variables = Inr (tests, global_variables)"
| "statements_loop source_name ((line_number, vs) # rest) tests global_variables =
     (if vs = [] then statements_loop source_name rest tests global_variables
      else
        (case parse_line_assignments vs (source_name @ '':'' @ str_nat line_number @ '': '') of
           Inl e \<Rightarrow> Inl e
         | Inr parameters \<Rightarrow>
             if \<not> contains parameters ''label''
             then statements_loop source_name rest tests (update global_variables parameters)
             else statements_loop source_name rest
                    (tests @ [descriptor source_name line_number global_variables parameters])
                    global_variables))"

section \<open>Tokens and the library\<close>

text \<open>
  A token of Python's \<^verbatim>\<open>tokenize\<close> module: its type, its text, and the (row, column)
  pairs where it starts and ends. \<^verbatim>\<open>generate_tokens\<close> gives the operators the type
  \<^verbatim>\<open>OP\<close>.
\<close>

datatype toktype =
  COMMENT | DEDENT | ENCODING | ENDMARKER | INDENT | NEWLINE | NL
  | ERRORTOKEN | STRING | NAME | NUMBER | OP

record token =
  tok_type :: toktype
  tok_string :: string
  tok_start :: "nat \<times> nat"
  tok_end :: "nat \<times> nat"

definition IGNORE_TOKENS :: "toktype set" where
  "IGNORE_TOKENS = {COMMENT, DEDENT, ENCODING, ENDMARKER, INDENT, NEWLINE, NL}"

text \<open>
  The state of \<^verbatim>\<open>parse_values\<close> while the tokens of one text are read: the local
  variables of the outer loop, which stay as they are during the inner loop, and the frame
  that an evaluation at line 124 sees, which has the list \<^verbatim>\<open>values\<close> and the token at hand
  as well (\<^verbatim>\<open>last_token\<close> is \<^verbatim>\<open>None\<close> there, and \<^verbatim>\<open>stream\<close> is no data). \<^verbatim>\<open>value\<close> is
  bound once line 124 has been completed for an earlier statement.
\<close>

record outer =
  o_source_name :: string
  o_combined_lines :: string
  o_combined_lines_number :: nat
  o_parse :: "(nat \<times> pyval list) list"
  o_line_number :: nat
  o_line :: string
  o_value :: "pyval option"

record frame =
  f_source_name :: string
  f_combined_lines :: string
  f_combined_lines_number :: nat
  f_parse :: "(nat \<times> pyval list) list"
  f_line_number :: nat
  f_line :: string
  f_value :: "pyval option"
  f_values :: "pyval list"
  f_token :: token

definition frame_at :: "outer \<Rightarrow> pyval list \<Rightarrow> token \<Rightarrow> frame" where
  "frame_at out vs t =
     \<lparr>f_source_name = o_source_name out, f_combined_lines = o_combined_lines out,
      f_combined_lines_number = o_combined_lines_number out, f_parse = o_parse out,
      f_line_number = o_line_number out, f_line = o_line out, f_value = o_value out,
      f_values = vs, f_token = t\<rparr>"

text \<open>
  What \<^verbatim>\<open>eval\<close> does with a text in that frame:
  \<^item> it raises an exception;
  \<^item> it returns a value and changes nothing: the value is new (it shares no list or
    dictionary with the state of the parser), but for the places where it holds the list
    \<^verbatim>\<open>values\<close> itself (\<open>PValues\<close>);
  \<^item> anything else: it changes the state of the parser, or a module, or its value holds
    another object of the parser's (the list \<^verbatim>\<open>parse\<close>, the list of an earlier statement),
    or a value of a kind that \<open>pyval\<close> has not. The model does not follow the module there.
\<close>

datatype outcome = Raised exn | Returned pyval | Beyond

text \<open>
  The functions of Python's library that the module calls are not part of it; the model
  takes them as a parameter:
  \<^item> \<^verbatim>\<open>tokenize.generate_tokens\<close> on a text: the tokens it yields, and the exception that
    ends the iteration, if one does;
  \<^item> \<^verbatim>\<open>eval\<close> on a text, in a frame of \<^verbatim>\<open>parse_values\<close>;
  \<^item> \<^verbatim>\<open>ast.literal_eval\<close> on the text of a \<^verbatim>\<open>STRING\<close> token: the string it denotes, or
    an exception;
  \<^item> \<^verbatim>\<open>repr\<close> of a string.
\<close>

record pylib =
  lib_generate_tokens :: "string \<Rightarrow> token list \<times> exn option"
  lib_eval :: "frame \<Rightarrow> string \<Rightarrow> outcome"
  lib_literal_eval :: "string \<Rightarrow> exn + string"
  lib_repr :: "string \<Rightarrow> string"

text \<open>
  \<^verbatim>\<open>
  def get_token_characters(token):
      if token.type == tokenize.STRING:
          return ast.literal_eval(token.string)
      else:
          return token.string
  \<close>
\<close>

definition get_token_characters :: "pylib \<Rightarrow> token \<Rightarrow> exn + string" where
  "get_token_characters L t =
     (if tok_type t = STRING then lib_literal_eval L (tok_string t) else Inr (tok_string t))"

text \<open>
  \<^verbatim>\<open>
  class FakeToken:
      def __init__(self, token1, token2):
          self.type = tokenize.STRING
          self.start = token1.start
          self.end = token2.end
          self.string = repr(get_token_characters(token1) + get_token_characters(token2))
  \<close>
\<close>

definition FakeToken :: "pylib \<Rightarrow> token \<Rightarrow> token \<Rightarrow> exn + token" where
  "FakeToken L token1 token2 =
     (case get_token_characters L token1 of
        Inl e \<Rightarrow> Inl e
      | Inr a \<Rightarrow>
          (case get_token_characters L token2 of
             Inl e \<Rightarrow> Inl e
           | Inr b \<Rightarrow>
               Inr \<lparr>tok_type = STRING, tok_string = lib_repr L (a @ b),
                    tok_start = tok_start token1, tok_end = tok_end token2\<rparr>))"

section \<open>parse_values\<close>

text \<open>\<^verbatim>\<open>token.string in '[{'\<close>: the text of the token occurs in the two-character text.\<close>

definition in_brackets :: "string \<Rightarrow> bool" where
  "in_brackets s = (s = [] \<or> s = ''['' \<or> s = ''{'' \<or> s = ''[{'')"

definition syntax_error_at :: "string \<Rightarrow> nat \<Rightarrow> token \<Rightarrow> string \<Rightarrow> exn" where
  "syntax_error_at source_name line_number t msg =
     TestSpecificationError
       (source_name @ '':'' @ str_nat line_number @ '':'' @ str_nat (snd (tok_start t)) @ msg)"

text \<open>
  The loop of lines 111-139 over the tokens that the tokenizer yields for the text
  \<^verbatim>\<open>combined_lines\<close>, with the state \<^verbatim>\<open>values\<close> and \<^verbatim>\<open>last_token\<close>. The tokens come one at
  a time: an exception of the loop body passes before the tokenizer is asked for the next
  token, the \<^verbatim>\<open>break\<close> of line 128 leaves the rest of the tokens (and the exception that might
  end them) unread, and the exception that ends the tokens is raised after the last of them.
  The \<^verbatim>\<open>print\<close> of line 125 writes to the standard output and changes nothing here.

  Line 124 evaluates the text in the frame of the function, and \<^verbatim>\<open>stringize\<close> rewrites the
  lists of the value in place. Where the value holds the list \<^verbatim>\<open>values\<close>, the items of
  that list are rewritten too, the markers among them to the string \<^verbatim>\<open>None\<close>, before the
  value is appended to it. The result gives the new \<^verbatim>\<open>value\<close> when line 124 has been
  completed, and \<open>None\<close> when the tokens have run out.
\<close>

fun tokens_loop ::
  "pylib \<Rightarrow> outer \<Rightarrow> token list \<Rightarrow> exn option \<Rightarrow> pyval list \<Rightarrow> token option
     \<Rightarrow> exn + (pyval list \<times> token option \<times> pyval option)" where
  "tokens_loop L out [] ending vs last_token =
     (case ending of Some e \<Rightarrow> Inl e | None \<Rightarrow> Inr (vs, last_token, None))"
| "tokens_loop L out (t # rest) ending vs last_token =
     (if tok_type t = ERRORTOKEN
      then Inl (syntax_error_at (o_source_name out) (o_line_number out) t '': syntax error'')
      else if tok_type t \<noteq> STRING \<and> CHR ''='' \<in> set (tok_string t) \<and> length (tok_string t) > 1
      then Inl (syntax_error_at (o_source_name out) (o_line_number out) t
             '': syntax error in assignment'')
      else if tok_string t = [] \<or> tok_type t \<in> IGNORE_TOKENS
      then tokens_loop L out rest ending vs last_token
      else if in_brackets (tok_string t) \<and> vs \<noteq> [] \<and> last vs = ASSIGNMENT \<and> last_token = None
      then
        (case lib_eval L (frame_at out vs t) (drop (snd (tok_start t)) (o_combined_lines out)) of
           Raised e \<Rightarrow> Inl e
         | Beyond \<Rightarrow> Inl outside
         | Returned x \<Rightarrow>
             Inr ((if holds_values x then map stringize vs else vs) @ [stringize x],
                  last_token, Some (stringize x)))
      else
        (case last_token of
           None \<Rightarrow>
             if tok_string t = ''=''
             then tokens_loop L out rest ending (vs @ [ASSIGNMENT]) None
             else tokens_loop L out rest ending vs (Some t)
         | Some lt \<Rightarrow>
             if tok_end lt \<noteq> tok_start t \<or> tok_string t = ''=''
             then
               (case get_token_characters L lt of
                  Inl e \<Rightarrow> Inl e
                | Inr s \<Rightarrow>
                    if tok_string t = ''=''
                    then tokens_loop L out rest ending (vs @ [PStr s, ASSIGNMENT]) None
                    else tokens_loop L out rest ending (vs @ [PStr s]) (Some t))
             else
               (case FakeToken L lt t of
                  Inl e \<Rightarrow> Inl e
                | Inr ft \<Rightarrow> tokens_loop L out rest ending vs (Some ft))))"

text \<open>
  The body of the \<^verbatim>\<open>try\<close> (lines 111-142) on the text \<^verbatim>\<open>combined_lines\<close>: the values of
  the statement and the new \<^verbatim>\<open>value\<close> if there is one, or the exception raised.
\<close>

definition scan_lines :: "pylib \<Rightarrow> outer \<Rightarrow> exn + (pyval list \<times> pyval option)" where
  "scan_lines L out =
     (case lib_generate_tokens L (o_combined_lines out) of
        (tokens, ending) \<Rightarrow>
          (case tokens_loop L out tokens ending [] None of
             Inl e \<Rightarrow> Inl e
           | Inr (vs, None, v) \<Rightarrow> Inr (vs, v)
           | Inr (vs, Some lt, v) \<Rightarrow>
               (case get_token_characters L lt of
                  Inl e \<Rightarrow> Inl e
                | Inr s \<Rightarrow> Inr (vs @ [PStr s], v))))"

text \<open>
  The loop of lines 103-150 over the numbered lines of the stream, with the state
  \<^verbatim>\<open>combined_lines\<close>, \<^verbatim>\<open>combined_lines_number\<close>, \<^verbatim>\<open>parse\<close> and \<^verbatim>\<open>value\<close>, and lines
  152-154 after it. \<^verbatim>\<open>TokenError\<close> and \<^verbatim>\<open>SyntaxError\<close> are caught (line 144) and the
  next line is added to the text; every other exception leaves the function.
\<close>

definition outer_of ::
  "string \<Rightarrow> string \<Rightarrow> nat \<Rightarrow> (nat \<times> pyval list) list \<Rightarrow> nat \<Rightarrow> string \<Rightarrow> pyval option
     \<Rightarrow> outer" where
  "outer_of source_name combined_lines combined_lines_number parse line_number line v =
     \<lparr>o_source_name = source_name, o_combined_lines = combined_lines @ line,
      o_combined_lines_number = (if combined_lines = [] then line_number else combined_lines_number),
      o_parse = parse, o_line_number = line_number, o_line = line, o_value = v\<rparr>"

fun lines_loop ::
  "pylib \<Rightarrow> string \<Rightarrow> (nat \<times> string) list \<Rightarrow> string \<Rightarrow> nat \<Rightarrow> (nat \<times> pyval list) list
     \<Rightarrow> pyval option \<Rightarrow> exn + (nat \<times> pyval list) list" where
  "lines_loop L source_name [] combined_lines combined_lines_number parse v =
     (if combined_lines \<noteq> []
      then Inl (TestSpecificationError
             (source_name @ '':'' @ str_nat combined_lines_number @ '' unclosed expression''))
      else Inr parse)"
| "lines_loop L source_name ((line_number, line) # rest) combined_lines combined_lines_number parse v =
     (case scan_lines L
             (outer_of source_name combined_lines combined_lines_number parse line_number line v) of
        Inl TokenError \<Rightarrow>
          lines_loop L source_name rest (combined_lines @ line)
            (if combined_lines = [] then line_number else combined_lines_number) parse v
      | Inl SyntaxError \<Rightarrow>
          lines_loop L source_name rest (combined_lines @ line)
            (if combined_lines = [] then line_number else combined_lines_number) parse v
      | Inl e \<Rightarrow> Inl e
      | Inr (vs, v') \<Rightarrow>
          lines_loop L source_name rest []
            (if combined_lines = [] then line_number else combined_lines_number)
            (parse @ [(if combined_lines = [] then line_number else combined_lines_number, vs)])
            (case v' of None \<Rightarrow> v | Some x \<Rightarrow> Some x))"

text \<open>The stream is the list of its lines; \<^verbatim>\<open>enumerate(stream, 1)\<close> numbers them from 1.\<close>

definition parse_values :: "pylib \<Rightarrow> string list \<Rightarrow> string \<Rightarrow> exn + (nat \<times> pyval list) list" where
  "parse_values L stream source_name = lines_loop L source_name (enumerate 1 stream) [] 1 [] None"

section \<open>parse_stream\<close>

text \<open>
  \<^verbatim>\<open>parse_values\<close> returns its whole list before the first statement is resolved, so an
  exception of \<^verbatim>\<open>parse_values\<close> comes before any of \<^verbatim>\<open>parse_line_assignments\<close>.
\<close>

definition parse_stream :: "pylib \<Rightarrow> string list \<Rightarrow> string \<Rightarrow> exn + dict list" where
  "parse_stream L stream source_name =
     (case parse_values L stream source_name of
        Inl e \<Rightarrow> Inl e
      | Inr parse \<Rightarrow>
          (case statements_loop source_name parse [] [] of
             Inl e \<Rightarrow> Inl e
           | Inr (tests, global_variables) \<Rightarrow> Inr tests))"

section \<open>The library on a fragment of its inputs\<close>

text \<open>
  To run the module on a concrete text, the library functions are modelled on a fragment of
  their inputs, after the behaviour of CPython 3.8 to 3.11 (the tokenizer written in Python):
  \<^item> the tokenizer on texts made of spaces, line ends, comments, names, decimal integers,
    strings in single or double quotes without backslashes, the operators
    \<^verbatim>\<open>= == : := + +=\<close>, commas and brackets; every line ends with a line end, no statement is
    indented, and no closing bracket comes without its opening one;
  \<^item> \<^verbatim>\<open>eval\<close> on the expressions made of integers, strings, \<^verbatim>\<open>True\<close>, \<^verbatim>\<open>False\<close>,
    \<^verbatim>\<open>None\<close>, names, list and dictionary displays, \<^verbatim>\<open>+\<close> and parentheses. Of the
    names in scope, those of the local variables \<^verbatim>\<open>values\<close>, \<^verbatim>\<open>line_number\<close>,
    \<^verbatim>\<open>combined_lines_number\<close>, \<^verbatim>\<open>combined_lines\<close>, \<^verbatim>\<open>line\<close>, \<^verbatim>\<open>source_name\<close>,
    \<^verbatim>\<open>last_token\<close> and of the global \<^verbatim>\<open>ASSIGNMENT\<close> are looked up in the frame; a name of
    one letter is bound nowhere (no local variable, global of the module or builtin has
    one); every other name is outside the fragment.
  Outside the fragment the tokenizer of the model raises \<open>outside\<close> and its evaluator
  answers \<open>Beyond\<close>, which the loop over the tokens turns into \<open>outside\<close>, an exception
  that the module does not catch: a result other than \<open>Inl outside\<close> was computed inside
  the fragment.
\<close>

definition newline :: char where
  "newline = CHR 0x0A"

definition backslash :: char where
  "backslash = CHR 0x5C"

definition is_quote :: "char \<Rightarrow> bool" where
  "is_quote c = (c = CHR 0x27 \<or> c = CHR 0x22)"

definition is_word_char :: "char \<Rightarrow> bool" where
  "is_word_char c = (is_alpha c \<or> is_digit c)"

definition mk_token :: "toktype \<Rightarrow> string \<Rightarrow> nat \<Rightarrow> nat \<Rightarrow> token" where
  "mk_token ty s row col =
     \<lparr>tok_type = ty, tok_string = s, tok_start = (row, col), tok_end = (row, col + length s)\<rparr>"

definition emit ::
  "token \<Rightarrow> (token list \<times> exn option) option \<Rightarrow> (token list \<times> exn option) option" where
  "emit t r = (case r of None \<Rightarrow> None | Some (ts, e) \<Rightarrow> Some (t # ts, e))"

definition decimal :: "string \<Rightarrow> bool" where
  "decimal w = ((\<forall>c \<in> set w. is_digit c) \<and> (take 1 w \<noteq> ''0'' \<or> (\<forall>c \<in> set w. c = CHR ''0'')))"

definition word_of :: "char \<Rightarrow> string \<Rightarrow> string" where
  "word_of c cs = c # takeWhile is_word_char cs"

definition comment_of :: "char \<Rightarrow> string \<Rightarrow> string" where
  "comment_of c cs = c # takeWhile (\<lambda>x. x \<noteq> newline) cs"

lemma length_tl_dropWhile: "length (dropWhile P cs) - Suc 0 < Suc (length cs)"
  using length_dropWhile_le [of P cs] by simp

function lex :: "nat \<Rightarrow> nat \<Rightarrow> nat \<Rightarrow> bool \<Rightarrow> string \<Rightarrow> (token list \<times> exn option) option" where
  "lex row col lev fresh [] =
     (if col \<noteq> 0 then None
      else if lev > 0 then Some ([], Some TokenError)
      else Some ([mk_token ENDMARKER [] row 0], None))"
| "lex row col lev fresh (c # cs) =
     (if c = CHR '' '' then lex row (Suc col) lev fresh cs
      else if c = newline then
        emit (mk_token (if fresh \<or> lev > 0 then NL else NEWLINE) [c] row col)
          (lex (Suc row) 0 lev (lev = 0) cs)
      else if c = CHR ''#'' then
        emit (mk_token COMMENT (comment_of c cs) row col)
          (lex row (col + length (comment_of c cs)) lev fresh (dropWhile (\<lambda>x. x \<noteq> newline) cs))
      else if fresh \<and> col > 0 then None
      else if is_alpha c then
        (if take 1 (dropWhile is_word_char cs) \<noteq> [] \<and> is_quote (hd (dropWhile is_word_char cs))
         then None
         else emit (mk_token NAME (word_of c cs) row col)
                (lex row (col + length (word_of c cs)) lev False (dropWhile is_word_char cs)))
      else if is_digit c then
        (if \<not> decimal (word_of c cs) then None
         else emit (mk_token NUMBER (word_of c cs) row col)
                (lex row (col + length (word_of c cs)) lev False (dropWhile is_word_char cs)))
      else if is_quote c then
        (if dropWhile (\<lambda>x. x \<noteq> c) cs = []
            \<or> backslash \<in> set (takeWhile (\<lambda>x. x \<noteq> c) cs)
            \<or> newline \<in> set (takeWhile (\<lambda>x. x \<noteq> c) cs)
            \<or> (takeWhile (\<lambda>x. x \<noteq> c) cs = [] \<and> take 1 (tl (dropWhile (\<lambda>x. x \<noteq> c) cs)) = [c])
         then None
         else emit (mk_token STRING (c # takeWhile (\<lambda>x. x \<noteq> c) cs @ [c]) row col)
                (lex row (col + length (takeWhile (\<lambda>x. x \<noteq> c) cs) + 2) lev False
                   (tl (dropWhile (\<lambda>x. x \<noteq> c) cs))))
      else if c \<in> set ''=:+'' then
        (if take 1 cs = ''=''
         then emit (mk_token OP [c, CHR ''=''] row col) (lex row (col + 2) lev False (tl cs))
         else emit (mk_token OP [c] row col) (lex row (Suc col) lev False cs))
      else if c \<in> set ''([{'' then
        emit (mk_token OP [c] row col) (lex row (Suc col) (Suc lev) False cs)
      else if c \<in> set '')]}'' then
        (if lev = 0 then None
         else emit (mk_token OP [c] row col) (lex row (Suc col) (lev - 1) False cs))
      else if c = CHR '','' then
        emit (mk_token OP [c] row col) (lex row (Suc col) lev False cs)
      else None)"
  by pat_completeness auto
termination
  by (relation "measure (\<lambda>(row, col, lev, fresh, s). length s)")
    (auto simp: length_dropWhile_le le_imp_less_Suc length_tl_dropWhile)

definition py_generate_tokens :: "string \<Rightarrow> token list \<times> exn option" where
  "py_generate_tokens s = (case lex 1 0 0 True s of None \<Rightarrow> ([], Some outside) | Some r \<Rightarrow> r)"


text \<open>
  Expressions: integers, strings, the three constants, names, list and dictionary displays,
  sums, and an expression in parentheses. A dictionary display is the list of its keys and
  values in turn.
\<close>

datatype expr =
    ENum int
  | EStr string
  | EConst atom
  | EName string
  | EList "expr list"
  | EDict "expr list"
  | EAdd expr expr

datatype 'a parsed = Parsed 'a "token list" | Rejected | Unknown

definition py_keywords :: "string list" where
  "py_keywords = [''and'', ''as'', ''assert'', ''async'', ''await'', ''break'', ''class'',
     ''continue'', ''def'', ''del'', ''elif'', ''else'', ''except'', ''finally'', ''for'',
     ''from'', ''global'', ''if'', ''import'', ''in'', ''is'', ''lambda'', ''nonlocal'',
     ''not'', ''or'', ''pass'', ''raise'', ''return'', ''try'', ''while'', ''with'', ''yield'',
     ''match'', ''case'', ''type'', ''_'']"

text \<open>The value of a decimal digit: its place among the ten digits.\<close>

definition digit_val :: "char \<Rightarrow> int" where
  "digit_val c = int (length (takeWhile (\<lambda>d. d \<noteq> c) ''0123456789''))"

definition int_of :: "string \<Rightarrow> int" where
  "int_of w = foldl (\<lambda>n c. 10 * n + digit_val c) 0 w"

text \<open>
  What follows a complete expression decides: a name that is no keyword, or a number, cannot
  follow one.
\<close>

definition cannot_follow :: "token \<Rightarrow> bool" where
  "cannot_follow t =
     ((tok_type t = NAME \<and> tok_string t \<notin> set py_keywords) \<or> tok_type t = NUMBER)"

text \<open>
  The parser of expressions, with a bound on its depth (the number of tokens is enough):
  \<open>Rejected\<close> is a \<^verbatim>\<open>SyntaxError\<close>, \<open>Unknown\<close> a text outside the fragment.
\<close>

fun parse_term :: "nat \<Rightarrow> token list \<Rightarrow> expr parsed"
  and parse_sum :: "nat \<Rightarrow> expr \<Rightarrow> token list \<Rightarrow> expr parsed"
  and parse_items :: "nat \<Rightarrow> expr list \<Rightarrow> token list \<Rightarrow> expr parsed"
  and parse_pairs :: "nat \<Rightarrow> expr list \<Rightarrow> token list \<Rightarrow> expr parsed" where
  "parse_term 0 ts = Unknown"
| "parse_term (Suc n) [] = Unknown"
| "parse_term (Suc n) (t # ts) =
     (if tok_type t = NUMBER then Parsed (ENum (int_of (tok_string t))) ts
      else if tok_type t = STRING then
        (if take 1 (map tok_type ts) = [STRING] then Unknown
         else Parsed (EStr (butlast (tl (tok_string t)))) ts)
      else if tok_type t = NAME then
        (if tok_string t = ''True'' then Parsed (EConst (ABool True)) ts
         else if tok_string t = ''False'' then Parsed (EConst (ABool False)) ts
         else if tok_string t = ''None'' then Parsed (EConst ANone) ts
         else if tok_string t \<in> set py_keywords then Unknown
         else Parsed (EName (tok_string t)) ts)
      else if tok_string t = ''['' then
        (if take 1 (map tok_string ts) = ['']''] then Parsed (EList []) (tl ts)
         else parse_items n [] ts)
      else if tok_string t = ''{'' then
        (if take 1 (map tok_string ts) = [''}''] then Parsed (EDict []) (tl ts)
         else parse_pairs n [] ts)
      else if tok_string t = ''('' then
        (case parse_term n ts of
           Parsed e ts' \<Rightarrow>
             (case parse_sum n e ts' of
                Parsed e' ts'' \<Rightarrow>
                  if take 1 (map tok_string ts'') = ['')''] then Parsed e' (tl ts'') else Unknown
              | Rejected \<Rightarrow> Rejected
              | Unknown \<Rightarrow> Unknown)
         | Rejected \<Rightarrow> Rejected
         | Unknown \<Rightarrow> Unknown)
      else Unknown)"
| "parse_sum 0 e ts = Unknown"
| "parse_sum (Suc n) e ts =
     (if take 1 (map tok_string ts) = [''+''] then
        (case parse_term n (tl ts) of
           Parsed e' ts' \<Rightarrow> parse_sum n (EAdd e e') ts'
         | Rejected \<Rightarrow> Rejected
         | Unknown \<Rightarrow> Unknown)
      else Parsed e ts)"
| "parse_items 0 es ts = Unknown"
| "parse_items (Suc n) es ts =
     (case parse_term n ts of
        Parsed e ts' \<Rightarrow>
          (case parse_sum n e ts' of
             Parsed e' ts'' \<Rightarrow>
               (case ts'' of
                  [] \<Rightarrow> Unknown
                | t # rest \<Rightarrow>
                    if tok_string t = '']'' then Parsed (EList (es @ [e'])) rest
                    else if tok_string t = '','' then
                      (if take 1 (map tok_string rest) = ['']'']
                       then Parsed (EList (es @ [e'])) (tl rest)
                       else parse_items n (es @ [e']) rest)
                    else if cannot_follow t then Rejected
                    else Unknown)
           | Rejected \<Rightarrow> Rejected
           | Unknown \<Rightarrow> Unknown)
      | Rejected \<Rightarrow> Rejected
      | Unknown \<Rightarrow> Unknown)"
| "parse_pairs 0 kvs ts = Unknown"
| "parse_pairs (Suc n) kvs ts =
     (case parse_term n ts of
        Parsed k0 ts0 \<Rightarrow>
          (case parse_sum n k0 ts0 of
             Parsed k ts1 \<Rightarrow>
               (if take 1 (map tok_string ts1) = ['':''] then
                  (case parse_term n (tl ts1) of
                     Parsed v0 ts2 \<Rightarrow>
                       (case parse_sum n v0 ts2 of
                          Parsed v ts3 \<Rightarrow>
                            (case ts3 of
                               [] \<Rightarrow> Unknown
                             | t # rest \<Rightarrow>
                                 if tok_string t = ''}'' then Parsed (EDict (kvs @ [k, v])) rest
                                 else if tok_string t = '','' then
                                   (if take 1 (map tok_string rest) = [''}'']
                                    then Parsed (EDict (kvs @ [k, v])) (tl rest)
                                    else parse_pairs n (kvs @ [k, v]) rest)
                                 else if cannot_follow t then Rejected
                                 else Unknown)
                        | Rejected \<Rightarrow> Rejected
                        | Unknown \<Rightarrow> Unknown)
                   | Rejected \<Rightarrow> Rejected
                   | Unknown \<Rightarrow> Unknown)
                else if take 1 (map cannot_follow ts1) = [True] then Rejected
                else Unknown)
           | Rejected \<Rightarrow> Rejected
           | Unknown \<Rightarrow> Unknown)
      | Rejected \<Rightarrow> Rejected
      | Unknown \<Rightarrow> Unknown)"

text \<open>
  The sum of two values, for the pairs of kinds on which \<^verbatim>\<open>+\<close> is defined. A sum with the
  list \<^verbatim>\<open>values\<close> is outside the fragment.
\<close>

fun num_of :: "atom \<Rightarrow> int option" where
  "num_of (AInt i) = Some i"
| "num_of (ABool b) = Some (if b then 1 else 0)"
| "num_of ANone = None"

fun py_add :: "pyval \<Rightarrow> pyval \<Rightarrow> exn + pyval" where
  "py_add PValues y = Inl outside"
| "py_add x PValues = Inl outside"
| "py_add (PAtom a) (PAtom b) =
     (case (num_of a, num_of b) of
        (Some i, Some j) \<Rightarrow> Inr (PAtom (AInt (i + j)))
      | _ \<Rightarrow> Inl (OtherException ''TypeError''))"
| "py_add (PStr a) (PStr b) = Inr (PStr (a @ b))"
| "py_add (PList a) (PList b) = Inr (PList (a @ b))"
| "py_add x y = Inl (OtherException ''TypeError'')"

text \<open>
  A name in the frame of line 124. \<^verbatim>\<open>value\<close> is unbound before line 124 has been
  completed once; afterwards it is an object that an earlier statement holds, which is
  outside the fragment.
\<close>

definition lookup :: "frame \<Rightarrow> string \<Rightarrow> exn + pyval" where
  "lookup f x =
     (if x = ''values'' then Inr PValues
      else if x = ''line_number'' then Inr (PAtom (AInt (int (f_line_number f))))
      else if x = ''combined_lines_number'' then Inr (PAtom (AInt (int (f_combined_lines_number f))))
      else if x = ''combined_lines'' then Inr (PStr (f_combined_lines f))
      else if x = ''line'' then Inr (PStr (f_line f))
      else if x = ''source_name'' then Inr (PStr (f_source_name f))
      else if x = ''last_token'' \<or> x = ''ASSIGNMENT'' then Inr (PAtom ANone)
      else if x = ''value'' \<and> f_value f = None then Inl (OtherException ''NameError'')
      else if length x = 1 \<and> x \<noteq> ''_'' \<and> is_alpha (hd x) then Inl (OtherException ''NameError'')
      else Inl outside)"

text \<open>
  Keys of a dictionary: numbers are equal by their value (\<^verbatim>\<open>True\<close> is 1), strings by
  their text; a list or a dictionary is no key. A key that is already there keeps its place
  and its first form, with the new value.
\<close>

fun key_eq :: "pyval \<Rightarrow> pyval \<Rightarrow> bool" where
  "key_eq (PAtom a) (PAtom b) =
     (case (num_of a, num_of b) of
        (Some i, Some j) \<Rightarrow> i = j
      | (None, None) \<Rightarrow> True
      | _ \<Rightarrow> False)"
| "key_eq (PStr a) (PStr b) = (a = b)"
| "key_eq x y = False"

fun hashable :: "pyval \<Rightarrow> bool" where
  "hashable (PAtom a) = True"
| "hashable (PStr s) = True"
| "hashable x = False"

fun store :: "(pyval \<times> pyval) list \<Rightarrow> pyval \<Rightarrow> pyval \<Rightarrow> (pyval \<times> pyval) list" where
  "store [] k v = [(k, v)]"
| "store ((k', v') # d) k v = (if key_eq k' k then (k', v) # d else (k', v') # store d k v)"

fun eval_expr :: "frame \<Rightarrow> expr \<Rightarrow> exn + pyval"
  and eval_list :: "frame \<Rightarrow> expr list \<Rightarrow> exn + pyval list"
  and eval_pairs :: "frame \<Rightarrow> (pyval \<times> pyval) list \<Rightarrow> expr list \<Rightarrow> exn + pyval" where
  "eval_expr f (ENum i) = Inr (PAtom (AInt i))"
| "eval_expr f (EStr s) = Inr (PStr s)"
| "eval_expr f (EConst a) = Inr (PAtom a)"
| "eval_expr f (EName x) = lookup f x"
| "eval_expr f (EList es) = (case eval_list f es of Inl e \<Rightarrow> Inl e | Inr vs \<Rightarrow> Inr (PList vs))"
| "eval_expr f (EDict kvs) = eval_pairs f [] kvs"
| "eval_expr f (EAdd a b) =
     (case eval_expr f a of
        Inl e \<Rightarrow> Inl e
      | Inr x \<Rightarrow> (case eval_expr f b of Inl e \<Rightarrow> Inl e | Inr y \<Rightarrow> py_add x y))"
| "eval_list f [] = Inr []"
| "eval_list f (e # es) =
     (case eval_expr f e of
        Inl x \<Rightarrow> Inl x
      | Inr v \<Rightarrow> (case eval_list f es of Inl x \<Rightarrow> Inl x | Inr vs \<Rightarrow> Inr (v # vs)))"
| "eval_pairs f d [] = Inr (PDict d)"
| "eval_pairs f d [k] = Inl outside"
| "eval_pairs f d (k # v # kvs) =
     (case eval_expr f k of
        Inl x \<Rightarrow> Inl x
      | Inr k' \<Rightarrow>
          (case eval_expr f v of
             Inl x \<Rightarrow> Inl x
           | Inr v' \<Rightarrow>
               if hashable k' then eval_pairs f (store d k' v') kvs
               else Inl (OtherException ''TypeError'')))"

text \<open>
  \<^verbatim>\<open>eval\<close> on a text: the text is tokenized and parsed whole, and evaluated only when it is
  one expression followed by nothing but line ends and comments. A text whose brackets do
  not close is a \<^verbatim>\<open>SyntaxError\<close>.
\<close>

definition evaluate :: "frame \<Rightarrow> string \<Rightarrow> exn + pyval" where
  "evaluate f s =
     (case lex 1 0 0 True s of
        None \<Rightarrow> Inl outside
      | Some (ts, Some e) \<Rightarrow> Inl SyntaxError
      | Some (ts, None) \<Rightarrow>
          (case parse_term (length ts) (filter (\<lambda>t. tok_type t \<noteq> NL \<and> tok_type t \<noteq> COMMENT) ts) of
             Parsed e ts' \<Rightarrow>
               (case parse_sum (length ts) e ts' of
                  Parsed e' rest \<Rightarrow>
                    if \<forall>t \<in> set rest. tok_type t = NEWLINE \<or> tok_type t = ENDMARKER
                    then eval_expr f e'
                    else if cannot_follow (hd rest) \<or> tok_type (hd rest) = NEWLINE then Inl SyntaxError
                    else Inl outside
                | Rejected \<Rightarrow> Inl SyntaxError
                | Unknown \<Rightarrow> Inl outside)
           | Rejected \<Rightarrow> Inl SyntaxError
           | Unknown \<Rightarrow> Inl outside))"

definition py_eval :: "frame \<Rightarrow> string \<Rightarrow> outcome" where
  "py_eval f s =
     (case evaluate f s of
        Inl e \<Rightarrow> if e = outside then Beyond else Raised e
      | Inr v \<Rightarrow> Returned v)"

text \<open>
  \<^verbatim>\<open>repr\<close> of a string and \<^verbatim>\<open>ast.literal_eval\<close> of the text of a string literal. The
  module reads the text that \<^verbatim>\<open>repr\<close> returns only through \<^verbatim>\<open>literal_eval\<close>, so what
  matters of it is that it denotes the string.
\<close>

fun escape :: "string \<Rightarrow> string" where
  "escape [] = []"
| "escape (c # cs) =
     (if c = backslash \<or> c = CHR 0x27 then backslash # c # escape cs
      else if c = newline then backslash # CHR ''n'' # escape cs
      else c # escape cs)"

definition py_repr :: "string \<Rightarrow> string" where
  "py_repr s = CHR 0x27 # escape s @ [CHR 0x27]"

fun unescape :: "char \<Rightarrow> string \<Rightarrow> string option" where
  "unescape q [] = Some []"
| "unescape q [c] = (if c = backslash \<or> c = q \<or> c = newline then None else Some [c])"
| "unescape q (c # d # cs) =
     (if c = backslash then
        (if d = backslash \<or> is_quote d then map_option ((#) d) (unescape q cs)
         else if d = CHR ''n'' then map_option ((#) newline) (unescape q cs)
         else None)
      else if c = q \<or> c = newline then None
      else map_option ((#) c) (unescape q (d # cs)))"

definition py_literal_eval :: "string \<Rightarrow> exn + string" where
  "py_literal_eval s =
     (if 2 \<le> length s \<and> is_quote (hd s) \<and> last s = hd s
      then (case unescape (hd s) (butlast (tl s)) of None \<Rightarrow> Inl outside | Some r \<Rightarrow> Inr r)
      else Inl outside)"

definition py :: pylib where
  "py = \<lparr>lib_generate_tokens = py_generate_tokens, lib_eval = py_eval,
          lib_literal_eval = py_literal_eval, lib_repr = py_repr\<rparr>"

section \<open>Facts about dictionaries\<close>

lemma map_of_setitem: "map_of (setitem d k v) = (map_of d)(k \<mapsto> v)"
  by (induction d) (auto simp: fun_eq_iff)

lemma keys_setitem: "fst ` set (setitem d k v) = insert k (fst ` set d)"
proof -
  have "dom (map_of (setitem d k v)) = insert k (dom (map_of d))"
    by (simp add: map_of_setitem)
  then show ?thesis by (simp add: dom_map_of_conv_image_fst)
qed

lemma distinct_setitem: "distinct (map fst d) \<Longrightarrow> distinct (map fst (setitem d k v))"
proof (induction d)
  case Nil
  show ?case by simp
next
  case (Cons p d)
  obtain k' v' where p: "p = (k', v')" by (cases p)
  have "k' \<notin> fst ` set (setitem d k v)" if "k' \<noteq> k"
    using Cons.prems p that by (simp add: keys_setitem)
  with Cons p show ?case by auto
qed

lemma contains_setitem: "contains (setitem d k v) k' \<longleftrightarrow> k' = k \<or> contains d k'"
  by (simp add: contains_def map_of_setitem)

lemma map_of_update:
  "distinct (map fst other) \<Longrightarrow> map_of (update d other) = map_of d ++ map_of other"
proof (induction other arbitrary: d)
  case Nil
  show ?case by simp
next
  case (Cons p other)
  obtain k v where p: "p = (k, v)" by (cases p)
  have fresh: "map_of other k = None"
    using Cons.prems p by (simp add: map_of_eq_None_iff)
  have "map_of (update d (p # other)) = (map_of d)(k \<mapsto> v) ++ map_of other"
    using Cons p by (simp add: map_of_setitem)
  also have "\<dots> = map_of d ++ map_of (p # other)"
    using fresh p by (auto simp: fun_eq_iff map_add_def split: option.splits)
  finally show ?case .
qed

lemma keys_update: "fst ` set (update d other) = fst ` set d \<union> fst ` set other"
proof (induction other arbitrary: d)
  case Nil
  show ?case by simp
next
  case (Cons p other)
  obtain k v where p: "p = (k, v)" by (cases p)
  show ?case using Cons [of "setitem d k v"] p by (simp add: keys_setitem)
qed

lemma assignments_loop_distinct:
  "distinct (map fst a) \<Longrightarrow> assignments_loop pfx vs a w = Inr p \<Longrightarrow> distinct (map fst p)"
proof (induction pfx vs a w rule: assignments_loop.induct)
  case (1 error_prefix assignments last_word)
  then show ?case
    by (auto simp: finish_def distinct_setitem split: option.splits if_splits)
next
  case (2 error_prefix v vs assignments last_word)
  show ?case
  proof (cases "v = ASSIGNMENT")
    case True
    with "2.prems" obtain w where w: "last_word = Some w"
      and ok: "\<not> (w = [] \<or> \<not> isidentifier w \<or> vs = [] \<or> take 1 vs = [ASSIGNMENT])"
      and new: "\<not> contains assignments w"
      and run: "assignments_loop error_prefix (snd (extract_rhs vs))
                  (setitem assignments w (fst (extract_rhs vs))) None = Inr p"
      by (auto split: option.splits if_splits)
    show ?thesis
      using "2.IH"(1) [OF True w ok new _ run] "2.prems"(1) by (simp add: distinct_setitem)
  next
    case False
    with "2.prems" obtain s where s: "v = PStr s"
      by (cases v) auto
    show ?thesis
    proof (cases "truthy last_word")
      case True
      with "2.prems" False s have new: "\<not> contains assignments ''label''"
        and run: "assignments_loop error_prefix vs
                    (setitem assignments ''label'' (PStr (the last_word))) (Some s) = Inr p"
        by (auto split: if_splits)
      show ?thesis
        using "2.IH"(2) [OF False s True new _ run] "2.prems"(1) by (simp add: distinct_setitem)
    next
      case nope: False
      with "2.prems" False s
      have run: "assignments_loop error_prefix vs assignments (Some s) = Inr p"
        by auto
      show ?thesis
        using "2.IH"(3) [OF False s nope "2.prems"(1) run] .
    qed
  qed
qed

lemma parse_line_assignments_distinct:
  "parse_line_assignments vs pfx = Inr p \<Longrightarrow> distinct (map fst p)"
  unfolding parse_line_assignments_def by (rule assignments_loop_distinct [of "[]"]) auto

lemma descriptor_lookup:
  assumes "distinct (map fst parameters)"
  shows "map_of (descriptor source_name line_number global_variables parameters)
     = (map_of global_variables)(''source_name'' \<mapsto> PStr source_name,
          ''line_number'' \<mapsto> PStr (str_nat line_number)) ++ map_of parameters"
  using assms by (simp add: descriptor_def map_of_update map_of_setitem)

section \<open>Facts about stringize\<close>

lemma stringize_items: "\<not> holds_values x \<Longrightarrow> string_items (stringize x)"
  by (induction x) auto

lemma stringize_not_marker: "stringize x \<noteq> ASSIGNMENT"
  by (cases x) (auto simp: ASSIGNMENT_def)

section \<open>Right-hand sides of assignments\<close>

lemma greedy_run:
  "\<exists>k \<le> length vs. greedy rhs vs = (rhs @ take k vs, drop k vs)
      \<and> (k < length vs \<longrightarrow> Suc k < length vs \<and> vs ! Suc k = ASSIGNMENT)
      \<and> (\<forall>j < k. \<not> (Suc j < length vs \<and> vs ! Suc j = ASSIGNMENT))"
proof (induction vs arbitrary: rhs)
  case Nil
  show ?case by simp
next
  case (Cons v vs)
  show ?case
  proof (cases "take 1 vs = [ASSIGNMENT]")
    case True
    then obtain ws where vs: "vs = ASSIGNMENT # ws"
      by (cases vs) auto
    have "greedy rhs (v # vs) = (rhs @ take 0 (v # vs), drop 0 (v # vs))"
      using True by simp
    moreover have "Suc 0 < length (v # vs) \<and> (v # vs) ! Suc 0 = ASSIGNMENT"
      using vs by simp
    ultimately show ?thesis
      by (intro exI [of _ 0]) simp
  next
    case False
    from Cons.IH [of "rhs @ [v]"] obtain k where k: "k \<le> length vs"
      and g: "greedy (rhs @ [v]) vs = ((rhs @ [v]) @ take k vs, drop k vs)"
      and stop: "k < length vs \<longrightarrow> Suc k < length vs \<and> vs ! Suc k = ASSIGNMENT"
      and run: "\<forall>j < k. \<not> (Suc j < length vs \<and> vs ! Suc j = ASSIGNMENT)"
      by blast
    have first: "\<not> (Suc 0 < length (v # vs) \<and> (v # vs) ! Suc 0 = ASSIGNMENT)"
      using False by (cases vs) auto
    have "greedy rhs (v # vs) = (rhs @ take (Suc k) (v # vs), drop (Suc k) (v # vs))"
      using False g by simp
    moreover have "Suc k \<le> length (v # vs)"
      using k by simp
    moreover have "Suc k < length (v # vs) \<longrightarrow>
        Suc (Suc k) < length (v # vs) \<and> (v # vs) ! Suc (Suc k) = ASSIGNMENT"
      using stop by simp
    moreover have "\<forall>j < Suc k. \<not> (Suc j < length (v # vs) \<and> (v # vs) ! Suc j = ASSIGNMENT)"
    proof (intro allI impI)
      fix j assume "j < Suc k"
      show "\<not> (Suc j < length (v # vs) \<and> (v # vs) ! Suc j = ASSIGNMENT)"
      proof (cases j)
        case 0
        then show ?thesis using first by simp
      next
        case (Suc i)
        then have "i < k" using \<open>j < Suc k\<close> by simp
        then show ?thesis using run Suc by simp
      qed
    qed
    ultimately show ?thesis by blast
  qed
qed

text \<open>
  Claim C5. When an assignment marker is resolved with the items \<open>vs\<close> after it (at least
  one): if exactly one item remains, or the item two positions ahead of the next one (the
  third of \<open>vs\<close>) is the marker, the right-hand side is the next single item. Otherwise it
  is the list of the first \<open>k\<close> items, where consumption stops at the first position
  \<open>k\<close> at which the item after the next one is a marker (the next item is then the next
  variable's name), or at the end of the statement when there is no such position.
\<close>

theorem rhs_extraction:
  assumes "vs \<noteq> []"
  shows "(length vs = 1 \<or> (2 < length vs \<and> vs ! 2 = ASSIGNMENT)
            \<longrightarrow> extract_rhs vs = (hd vs, tl vs))
       \<and> (\<not> (length vs = 1 \<or> (2 < length vs \<and> vs ! 2 = ASSIGNMENT))
            \<longrightarrow> (\<exists>k \<le> length vs.
                   extract_rhs vs = (PList (take k vs), drop k vs)
                 \<and> (k < length vs \<longrightarrow> Suc k < length vs \<and> vs ! Suc k = ASSIGNMENT)
                 \<and> (\<forall>j < k. \<not> (Suc j < length vs \<and> vs ! Suc j = ASSIGNMENT))))"
proof -
  from assms obtain v ws where vs: "vs = v # ws"
    by (cases vs) auto
  have look: "take 1 (drop 2 vs) = [ASSIGNMENT] \<longleftrightarrow> 2 < length vs \<and> vs ! 2 = ASSIGNMENT"
  proof (cases "drop 2 vs")
    case Nil
    then show ?thesis by simp
  next
    case (Cons x xs)
    then have "2 < length vs"
      by (metis drop_eq_Nil linorder_not_le list.distinct(1))
    moreover have "vs ! 2 = x"
      using Cons by (metis Cons_nth_drop_Suc calculation list.inject)
    ultimately show ?thesis using Cons by simp
  qed
  have single: "length vs = 1 \<or> (2 < length vs \<and> vs ! 2 = ASSIGNMENT)
      \<Longrightarrow> extract_rhs vs = (hd vs, tl vs)"
    using look vs by auto
  have run: "\<exists>k \<le> length vs.
                   extract_rhs vs = (PList (take k vs), drop k vs)
                 \<and> (k < length vs \<longrightarrow> Suc k < length vs \<and> vs ! Suc k = ASSIGNMENT)
                 \<and> (\<forall>j < k. \<not> (Suc j < length vs \<and> vs ! Suc j = ASSIGNMENT))"
    if other: "\<not> (length vs = 1 \<or> (2 < length vs \<and> vs ! 2 = ASSIGNMENT))"
  proof -
    from greedy_run [of vs "[]"] obtain k where k: "k \<le> length vs"
      and g: "greedy [] vs = (take k vs, drop k vs)"
      and rest: "(k < length vs \<longrightarrow> Suc k < length vs \<and> vs ! Suc k = ASSIGNMENT)
                 \<and> (\<forall>j < k. \<not> (Suc j < length vs \<and> vs ! Suc j = ASSIGNMENT))"
      by auto
    have "extract_rhs vs = (PList (take k vs), drop k vs)"
      using other look g vs by auto
    with k rest show ?thesis by blast
  qed
  show ?thesis using single run by blast
qed

theorem rhs_extraction_witness:
  "[PStr ''10'', PStr ''expected_stdout'', ASSIGNMENT, PStr ''kkk''] \<noteq> []
   \<and> extract_rhs [PStr ''10'', PStr ''expected_stdout'', ASSIGNMENT, PStr ''kkk'']
     = (PStr ''10'', [PStr ''expected_stdout'', ASSIGNMENT, PStr ''kkk''])
   \<and> extract_rhs [PStr ''kkk''] = (PStr ''kkk'', [])
   \<and> extract_rhs [PStr ''hello'', PStr ''arg 1'', PStr ''x'', ASSIGNMENT, PStr ''1'']
     = (PList [PStr ''hello'', PStr ''arg 1''], [PStr ''x'', ASSIGNMENT, PStr ''1''])"
  using rhs_extraction [of "[PStr ''10'', PStr ''expected_stdout'', ASSIGNMENT, PStr ''kkk'']"]
    rhs_extraction [of "[PStr ''kkk'']"]
    rhs_extraction [of "[PStr ''hello'', PStr ''arg 1'', PStr ''x'', ASSIGNMENT, PStr ''1'']"]
  by (simp add: ASSIGNMENT_def)

section \<open>Running the module on a text\<close>

lemmas lib_simps = py_def py_generate_tokens_def mk_token_def emit_def newline_def is_alpha_def
  is_digit_def is_quote_def is_word_char_def word_of_def comment_of_def decimal_def

lemmas module_simps = parse_stream_def parse_values_def scan_lines_def IGNORE_TOKENS_def
  in_brackets_def get_token_characters_def ASSIGNMENT_def parse_line_assignments_def contains_def
  finish_def descriptor_def syntax_error_at_def outer_of_def frame_at_def isidentifier_def
  ascii_def

lemma str_nat_digit: "n < 10 \<Longrightarrow> str_nat n = [''0123456789'' ! n]"
  by (simp add: str_nat.simps digit_char_def)

lemma str_nat_lines [simp]:
  "str_nat 0 = ''0''" "str_nat (Suc 0) = ''1''" "str_nat (Suc (Suc 0)) = ''2''"
  "str_nat (Suc (Suc (Suc 0))) = ''3''"
  by (simp_all add: str_nat_digit)

section \<open>A statement overrides a global value\<close>

text \<open>
  Claim C6. The stream of the three lines \<^verbatim>\<open>max_cpu_seconds=45\<close>, an empty line and
  \<^verbatim>\<open>test1 max_cpu_seconds=10 expected_stdout=kkk\<close> gives exactly one test, whose entries
  are the label \<^verbatim>\<open>test1\<close>, \<^verbatim>\<open>max_cpu_seconds\<close> with the statement's own value \<^verbatim>\<open>10\<close>
  (not the earlier global \<^verbatim>\<open>45\<close>), \<^verbatim>\<open>expected_stdout\<close> with \<^verbatim>\<open>kkk\<close>, the source name
  given, and the line number as the string \<^verbatim>\<open>3\<close>.
\<close>

theorem scenario_statement_overrides_global:
  "parse_stream py
     [''max_cpu_seconds=45\<newline>'', ''\<newline>'',
      ''test1 max_cpu_seconds=10 expected_stdout=kkk\<newline>''] source_name
   = Inr [[(''max_cpu_seconds'', PStr ''10''), (''source_name'', PStr source_name),
           (''line_number'', PStr ''3''), (''label'', PStr ''test1''),
           (''expected_stdout'', PStr ''kkk'')]]"
  by (simp add: lib_simps module_simps)

theorem scenario_statement_overrides_global_witness:
  "map (\<lambda>test. map (map_of test)
          [''label'', ''max_cpu_seconds'', ''expected_stdout'', ''source_name'', ''line_number'', ''other''])
     (projr (parse_stream py
       [''max_cpu_seconds=45\<newline>'', ''\<newline>'',
        ''test1 max_cpu_seconds=10 expected_stdout=kkk\<newline>''] ''tests.txt''))
   = [[Some (PStr ''test1''), Some (PStr ''10''), Some (PStr ''kkk''), Some (PStr ''tests.txt''),
       Some (PStr ''3''), None]]"
  using scenario_statement_overrides_global [of "''tests.txt''"] by simp

section \<open>An assignment whose right-hand side is empty\<close>

text \<open>
  Claim C4 says that an assignment with a missing or empty right-hand side fails, as in
  \<^verbatim>\<open>x=y=z\<close>. Line 57 rejects a marker that stands first after the marker, but when the
  marker stands second (after \<^verbatim>\<open>y\<close>) and no marker stands third, line 63 takes the second
  branch and the loop of line 67 stops at once: \<^verbatim>\<open>x\<close> is bound to the empty list, and the
  statement is accepted. The test of the second line below inherits that binding. The same
  happens whenever the item after the marker is followed by a marker and no marker stands
  third.
\<close>

theorem marker_after_first_item_binds_empty_list:
  "parse_line_assignments [PStr ''x'', ASSIGNMENT, PStr ''y'', ASSIGNMENT, PStr ''z''] error_prefix
     = Inr [(''x'', PList []), (''y'', PStr ''z'')]
   \<and> parse_values py [''x=y=z\<newline>''] source_name
     = Inr [(1, [PStr ''x'', ASSIGNMENT, PStr ''y'', ASSIGNMENT, PStr ''z''])]
   \<and> parse_stream py [''x=y=z\<newline>'', ''t\<newline>''] source_name
     = Inr [[(''x'', PList []), (''y'', PStr ''z''), (''source_name'', PStr source_name),
             (''line_number'', PStr ''2''), (''label'', PStr ''t'')]]
   \<and> (take 1 rest \<noteq> [ASSIGNMENT]
        \<longrightarrow> extract_rhs (v # ASSIGNMENT # rest) = (PList [], v # ASSIGNMENT # rest))"
proof -
  have "extract_rhs (v # ASSIGNMENT # rest) = (PList [], v # ASSIGNMENT # rest)"
    if "take 1 rest \<noteq> [ASSIGNMENT]"
    using that by simp
  then show ?thesis
    by (simp add: lib_simps module_simps)
qed

theorem marker_after_first_item_binds_empty_list_witness:
  "map_of (hd (projr (parse_stream py [''x=y=z\<newline>'', ''t\<newline>''] ''tests.txt''))) ''x''
     = Some (PList [])"
  using marker_after_first_item_binds_empty_list
    [of "''tests.txt:1: ''" "''tests.txt''" "[PStr ''z'']" "PStr ''y''"]
  by simp

section \<open>Comments\<close>

text \<open>
  A token that the loop of \<^verbatim>\<open>parse_values\<close> passes over: its type is in
  \<^verbatim>\<open>IGNORE_TOKENS\<close>, and the test of line 116 does not fire on it.
\<close>

definition skipped :: "token \<Rightarrow> bool" where
  "skipped t = (tok_type t \<in> IGNORE_TOKENS
     \<and> \<not> (CHR ''='' \<in> set (tok_string t) \<and> 1 < length (tok_string t)))"

lemma tokens_loop_skipped:
  "\<forall>t \<in> set ts. skipped t \<Longrightarrow> tokens_loop L out ts None vs lt = Inr (vs, lt, None)"
  by (induction ts) (auto simp: skipped_def IGNORE_TOKENS_def)

lemma scan_lines_skipped:
  "lib_generate_tokens L (o_combined_lines out) = (ts, None) \<Longrightarrow> \<forall>t \<in> set ts. skipped t
     \<Longrightarrow> scan_lines L out = Inr ([], None)"
  by (simp add: scan_lines_def tokens_loop_skipped)

lemma lines_loop_skipped:
  "\<forall>l \<in> set stream. \<exists>ts. lib_generate_tokens L l = (ts, None) \<and> (\<forall>t \<in> set ts. skipped t)
     \<Longrightarrow> \<exists>parse'. lines_loop L s (enumerate n stream) [] cn parse v = Inr parse'
           \<and> (\<forall>p \<in> set parse'. p \<in> set parse \<or> snd p = [])"
proof (induction stream arbitrary: n cn parse)
  case Nil
  show ?case by simp
next
  case (Cons l stream)
  from Cons.prems obtain ts where ts: "lib_generate_tokens L l = (ts, None)" "\<forall>t \<in> set ts. skipped t"
    by auto
  have scan: "scan_lines L (outer_of s [] cn parse n l v) = Inr ([], None)"
    using ts by (intro scan_lines_skipped [of _ _ ts]) (simp_all add: outer_of_def)
  from Cons.prems have rest: "\<forall>l \<in> set stream. \<exists>ts. lib_generate_tokens L l = (ts, None) \<and> (\<forall>t \<in> set ts. skipped t)"
    by simp
  from Cons.IH [OF rest, of "Suc n" n "parse @ [(n, [])]"] obtain parse' where
    "lines_loop L s (enumerate (Suc n) stream) [] n (parse @ [(n, [])]) v = Inr parse'"
    "\<forall>p \<in> set parse'. p \<in> set (parse @ [(n, [])]) \<or> snd p = []"
    by blast
  then show ?case using scan by auto
qed

lemma lines_loop_skipped_prefix:
  "\<forall>l \<in> set pre. \<exists>ts. lib_generate_tokens L l = (ts, None) \<and> (\<forall>t \<in> set ts. skipped t)
     \<Longrightarrow> \<exists>cn' parse'. lines_loop L s (enumerate n (pre @ others)) [] cn parse v
           = lines_loop L s (enumerate (n + length pre) others) [] cn' parse' v"
proof (induction pre arbitrary: n cn parse)
  case Nil
  show ?case by auto
next
  case (Cons l pre)
  from Cons.prems obtain ts where ts: "lib_generate_tokens L l = (ts, None)" "\<forall>t \<in> set ts. skipped t"
    by auto
  have scan: "scan_lines L (outer_of s [] cn parse n l v) = Inr ([], None)"
    using ts by (intro scan_lines_skipped [of _ _ ts]) (simp_all add: outer_of_def)
  from Cons.prems have rest: "\<forall>l \<in> set pre. \<exists>ts. lib_generate_tokens L l = (ts, None) \<and> (\<forall>t \<in> set ts. skipped t)"
    by simp
  from Cons.IH [OF rest, of "Suc n" n "parse @ [(n, [])]"] obtain cn' parse' where
    "lines_loop L s (enumerate (Suc n) (pre @ others)) [] n (parse @ [(n, [])]) v
       = lines_loop L s (enumerate (Suc n + length pre) others) [] cn' parse' v"
    by blast
  then show ?case using scan by auto
qed

lemma statements_loop_empty:
  "\<forall>p \<in> set statements. snd p = [] \<Longrightarrow> statements_loop s statements tests g = Inr (tests, g)"
  by (induction s statements tests g rule: statements_loop.induct) auto

text \<open>
  When every line of the stream tokenizes, on its own, to tokens that are passed over (as the
  blank lines and the comment lines without \<^verbatim>\<open>=\<close> do), the result is the empty list.
\<close>

lemma comments_without_equals_give_no_tests:
  assumes "\<forall>l \<in> set stream. \<exists>ts. lib_generate_tokens L l = (ts, None) \<and> (\<forall>t \<in> set ts. skipped t)"
  shows "parse_stream L stream source_name = Inr []"
proof -
  from lines_loop_skipped [OF assms, of source_name 1 1 "[]" None] obtain parse' where
    p: "parse_values L stream source_name = Inr parse'" and e: "\<forall>p \<in> set parse'. snd p = []"
    by (auto simp: parse_values_def)
  show ?thesis
    using p statements_loop_empty [OF e, of source_name "[]" "[]"] by (simp add: parse_stream_def)
qed

lemma comment_lines_example:
  "parse_stream py [''# first\<newline>'', ''\<newline>'', ''   \<newline>'', ''  # second\<newline>''] source_name = Inr []"
  by (rule comments_without_equals_give_no_tests)
    (simp add: lib_simps skipped_def IGNORE_TOKENS_def)

text \<open>
  Claim C2 says that a text of blank lines and comment lines gives the empty list of tests,
  also when a comment contains \<^verbatim>\<open>=\<close>. The test of line 116 for a token that contains
  \<^verbatim>\<open>=\<close> comes before line 119 skips the tokens of \<^verbatim>\<open>IGNORE_TOKENS\<close>: when, after
  lines that are passed over, the first token of a line is a comment of two characters or
  more with \<^verbatim>\<open>=\<close> in it, the parse fails with the error of line 117 for that line.
\<close>

theorem comment_with_equals_rejected:
  assumes "\<forall>l \<in> set pre. \<exists>ts. lib_generate_tokens L l = (ts, None) \<and> (\<forall>t \<in> set ts. skipped t)"
    and "lib_generate_tokens L line = (t # ts, e)"
    and "tok_type t = COMMENT"
    and "CHR ''='' \<in> set (tok_string t)"
    and "1 < length (tok_string t)"
  shows "parse_stream L (pre @ line # stream) source_name
     = Inl (TestSpecificationError
         (source_name @ '':'' @ str_nat (Suc (length pre)) @ '':'' @ str_nat (snd (tok_start t))
            @ '': syntax error in assignment''))"
proof -
  have here: "lines_loop L source_name (enumerate (Suc (length pre)) (line # stream)) [] cn parse None
     = Inl (TestSpecificationError
         (source_name @ '':'' @ str_nat (Suc (length pre)) @ '':'' @ str_nat (snd (tok_start t))
            @ '': syntax error in assignment''))" for cn parse
    using assms(2-5) by (simp add: scan_lines_def syntax_error_at_def outer_of_def)
  from lines_loop_skipped_prefix [OF assms(1), of source_name 1 "line # stream" 1 "[]" None]
  obtain cn' parse' where
    "lines_loop L source_name (enumerate 1 (pre @ line # stream)) [] 1 [] None
       = lines_loop L source_name (enumerate (1 + length pre) (line # stream)) [] cn' parse' None"
    by blast
  with here [of cn' parse'] show ?thesis
    by (simp add: parse_stream_def parse_values_def)
qed

theorem comment_with_equals_rejected_witness:
  "parse_stream py [''# first\<newline>'', ''\<newline>'', ''# a=b\<newline>'', ''t\<newline>''] ''tests.txt''
     = Inl (TestSpecificationError ''tests.txt:3:0: syntax error in assignment'')"
proof -
  let ?t = "\<lparr>tok_type = COMMENT, tok_string = ''# a=b'', tok_start = (1, 0), tok_end = (1, 5)\<rparr>"
  obtain ts e where toks: "lib_generate_tokens py ''# a=b\<newline>'' = (?t # ts, e)"
    by (simp add: lib_simps)
  have pre: "\<forall>l \<in> set [''# first\<newline>'', ''\<newline>''].
      \<exists>ts. lib_generate_tokens py l = (ts, None) \<and> (\<forall>t \<in> set ts. skipped t)"
    by (simp add: lib_simps skipped_def IGNORE_TOKENS_def)
  show ?thesis
    using comment_with_equals_rejected [OF pre toks, of "[''t\<newline>'']" "''tests.txt''"]
    by simp
qed

section \<open>The global variables\<close>

text \<open>
  The dictionaries of the statements that have values and no label, in order: what the
  loop of \<^verbatim>\<open>parse_stream\<close> stores into \<^verbatim>\<open>global_variables\<close>.
\<close>

definition unlabeled_parameters :: "string \<Rightarrow> (nat \<times> pyval list) list \<Rightarrow> dict list" where
  "unlabeled_parameters source_name statements =
     concat (map (\<lambda>(line_number, vs).
        if vs = [] then []
        else (case parse_line_assignments vs (source_name @ '':'' @ str_nat line_number @ '': '') of
                Inl e \<Rightarrow> []
              | Inr parameters \<Rightarrow> if contains parameters ''label'' then [] else [parameters]))
       statements)"

lemma statements_loop_globals:
  "statements_loop source_name statements tests g = Inr (tests', g')
     \<Longrightarrow> g' = foldl update g (unlabeled_parameters source_name statements)"
proof (induction source_name statements tests g rule: statements_loop.induct)
  case (1 source_name tests global_variables)
  then show ?case by (simp add: unlabeled_parameters_def)
next
  case (2 source_name line_number vs rest tests global_variables)
  show ?case
  proof (cases "vs = []")
    case True
    with 2 show ?thesis by (simp add: unlabeled_parameters_def)
  next
    case False
    with "2.prems" obtain parameters where
      p: "parse_line_assignments vs (source_name @ '':'' @ str_nat line_number @ '': '') = Inr parameters"
      by (auto split: sum.splits)
    show ?thesis
    proof (cases "contains parameters ''label''")
      case True
      with "2.IH"(3) [OF False p] "2.prems" False p show ?thesis
        by (simp add: unlabeled_parameters_def)
    next
      case nolabel: False
      with "2.IH"(2) [OF False p] "2.prems" False p show ?thesis
        by (simp add: unlabeled_parameters_def)
    qed
  qed
qed

lemma foldl_update_keys: "fst ` set g \<subseteq> fst ` set (foldl update g ps)"
proof (induction ps arbitrary: g)
  case Nil
  show ?case by simp
next
  case (Cons p ps)
  have "fst ` set g \<subseteq> fst ` set (update g p)"
    by (simp add: keys_update)
  also have "\<dots> \<subseteq> fst ` set (foldl update (update g p) ps)"
    by (rule Cons.IH)
  finally show ?case by simp
qed

text \<open>
  Claim C7. A statement with a label leaves \<^verbatim>\<open>global_variables\<close> as it was: the loop goes
  on with the same dictionary and one more test, which is the global dictionary with the two
  provenance entries, overridden by the statement's own parameters. At the end of any run
  of the loop the global dictionary is the starting one updated with the dictionaries of the
  statements without label only, and no key of the starting dictionary is lost.
\<close>

theorem labeled_statement_leaves_globals:
  "(vs \<noteq> [] \<and> parse_line_assignments vs (source_name @ '':'' @ str_nat line_number @ '': '') = Inr parameters
      \<and> contains parameters ''label''
      \<longrightarrow> statements_loop source_name ((line_number, vs) # rest) tests g
            = statements_loop source_name rest
                (tests @ [descriptor source_name line_number g parameters]) g
        \<and> map_of (descriptor source_name line_number g parameters)
            = (map_of g)(''source_name'' \<mapsto> PStr source_name,
                 ''line_number'' \<mapsto> PStr (str_nat line_number)) ++ map_of parameters)
   \<and> (statements_loop source_name statements tests g = Inr (tests', g')
      \<longrightarrow> g' = foldl update g (unlabeled_parameters source_name statements)
        \<and> fst ` set g \<subseteq> fst ` set g')"
proof (intro conjI impI)
  assume a: "vs \<noteq> [] \<and> parse_line_assignments vs (source_name @ '':'' @ str_nat line_number @ '': '') = Inr parameters
      \<and> contains parameters ''label''"
  then show "statements_loop source_name ((line_number, vs) # rest) tests g
            = statements_loop source_name rest
                (tests @ [descriptor source_name line_number g parameters]) g"
    by simp
  from a have "distinct (map fst parameters)"
    using parse_line_assignments_distinct by blast
  then show "map_of (descriptor source_name line_number g parameters)
            = (map_of g)(''source_name'' \<mapsto> PStr source_name,
                 ''line_number'' \<mapsto> PStr (str_nat line_number)) ++ map_of parameters"
    by (rule descriptor_lookup)
next
  assume r: "statements_loop source_name statements tests g = Inr (tests', g')"
  then show g': "g' = foldl update g (unlabeled_parameters source_name statements)"
    by (rule statements_loop_globals)
  show "fst ` set g \<subseteq> fst ` set g'"
    unfolding g' by (rule foldl_update_keys)
qed

theorem labeled_statement_leaves_globals_witness:
  "statements_loop ''tests.txt''
      [(1, [PStr ''a'', ASSIGNMENT, PStr ''1'']),
       (2, [PStr ''t'', PStr ''b'', ASSIGNMENT, PStr ''2'']),
       (3, [PStr ''c'', ASSIGNMENT, PStr ''3''])] [] []
    = Inr ([[(''a'', PStr ''1''), (''source_name'', PStr ''tests.txt''), (''line_number'', PStr ''2''),
             (''label'', PStr ''t''), (''b'', PStr ''2'')]],
           [(''a'', PStr ''1''), (''c'', PStr ''3'')])
   \<and> unlabeled_parameters ''tests.txt''
      [(1, [PStr ''a'', ASSIGNMENT, PStr ''1'']),
       (2, [PStr ''t'', PStr ''b'', ASSIGNMENT, PStr ''2'']),
       (3, [PStr ''c'', ASSIGNMENT, PStr ''3''])]
      = [[(''a'', PStr ''1'')], [(''c'', PStr ''3'')]]
   \<and> statements_loop ''tests.txt''
        ((2, [PStr ''t'', PStr ''b'', ASSIGNMENT, PStr ''2'']) # [(3, [PStr ''c'', ASSIGNMENT, PStr ''3''])])
        [] [(''a'', PStr ''1'')]
      = statements_loop ''tests.txt'' [(3, [PStr ''c'', ASSIGNMENT, PStr ''3''])]
          ([] @ [descriptor ''tests.txt'' 2 [(''a'', PStr ''1'')] [(''label'', PStr ''t''), (''b'', PStr ''2'')]])
          [(''a'', PStr ''1'')]"
proof -
  let ?s1 = "(1, [PStr ''a'', ASSIGNMENT, PStr ''1''])"
  let ?s2 = "(2, [PStr ''t'', PStr ''b'', ASSIGNMENT, PStr ''2''])"
  let ?s3 = "(3, [PStr ''c'', ASSIGNMENT, PStr ''3''])"
  let ?d = "[(''a'', PStr ''1''), (''source_name'', PStr ''tests.txt''), (''line_number'', PStr ''2''),
             (''label'', PStr ''t''), (''b'', PStr ''2'')]"
  have run: "statements_loop ''tests.txt'' [?s1, ?s2, ?s3] [] []
      = Inr ([?d], [(''a'', PStr ''1''), (''c'', PStr ''3'')])"
    by (simp add: module_simps is_alpha_def str_nat_digit)
  have stmt: "[PStr ''t'', PStr ''b'', ASSIGNMENT, PStr ''2''] \<noteq> []
      \<and> parse_line_assignments [PStr ''t'', PStr ''b'', ASSIGNMENT, PStr ''2'']
            (''tests.txt'' @ '':'' @ str_nat 2 @ '': '')
          = Inr [(''label'', PStr ''t''), (''b'', PStr ''2'')]
      \<and> contains [(''label'', PStr ''t''), (''b'', PStr ''2'')] ''label''"
    by (simp add: module_simps is_alpha_def str_nat_digit)
  have unl: "unlabeled_parameters ''tests.txt'' [?s1, ?s2, ?s3]
      = [[(''a'', PStr ''1'')], [(''c'', PStr ''3'')]]"
    by (simp add: unlabeled_parameters_def module_simps is_alpha_def str_nat_digit)
  note whole = labeled_statement_leaves_globals
    [of "[]" "''tests.txt''" 0 "[]" "[]" "[]" "[]" "[?s1, ?s2, ?s3]" "[?d]"
        "[(''a'', PStr ''1''), (''c'', PStr ''3'')]"]
  note step = labeled_statement_leaves_globals
    [of "[PStr ''t'', PStr ''b'', ASSIGNMENT, PStr ''2'']" "''tests.txt''" 2
        "[(''label'', PStr ''t''), (''b'', PStr ''2'')]" "[?s3]" "[]" "[(''a'', PStr ''1'')]"
        "[]" "[]" "[]"]
  from step stmt have "statements_loop ''tests.txt'' (?s2 # [?s3]) [] [(''a'', PStr ''1'')]
      = statements_loop ''tests.txt'' [?s3]
          ([] @ [descriptor ''tests.txt'' 2 [(''a'', PStr ''1'')] [(''label'', PStr ''t''), (''b'', PStr ''2'')]])
          [(''a'', PStr ''1'')]"
    by blast
  moreover from whole run
  have "[(''a'', PStr ''1''), (''c'', PStr ''3'')]
      = foldl update [] (unlabeled_parameters ''tests.txt'' [?s1, ?s2, ?s3])"
    by blast
  ultimately show ?thesis using run unl by simp
qed

section \<open>Provenance entries\<close>

text \<open>
  Claim C9. When a statement with a label assigns \<^verbatim>\<open>source_name\<close> or \<^verbatim>\<open>line_number\<close>
  itself, the test holds the statement's value under that key and not the name of the source
  or the number of the line: lines 36-37 store the provenance before line 38 stores the
  statement's parameters over it. A key the statement does not assign keeps the provenance.
\<close>

theorem own_provenance_parameters_win:
  assumes "vs \<noteq> []"
    and "parse_line_assignments vs (source_name @ '':'' @ str_nat line_number @ '': '') = Inr parameters"
    and "contains parameters ''label''"
  shows "statements_loop source_name [(line_number, vs)] tests g
      = Inr (tests @ [descriptor source_name line_number g parameters], g)
    \<and> map_of (descriptor source_name line_number g parameters) ''source_name''
      = (case map_of parameters ''source_name'' of
           Some v \<Rightarrow> Some v
         | None \<Rightarrow> Some (PStr source_name))
    \<and> map_of (descriptor source_name line_number g parameters) ''line_number''
      = (case map_of parameters ''line_number'' of
           Some v \<Rightarrow> Some v
         | None \<Rightarrow> Some (PStr (str_nat line_number)))"
proof -
  have "distinct (map fst parameters)"
    using assms(2) by (rule parse_line_assignments_distinct)
  then have look: "map_of (descriptor source_name line_number g parameters)
      = (map_of g)(''source_name'' \<mapsto> PStr source_name,
          ''line_number'' \<mapsto> PStr (str_nat line_number)) ++ map_of parameters"
    by (rule descriptor_lookup)
  have "statements_loop source_name [(line_number, vs)] tests g
      = Inr (tests @ [descriptor source_name line_number g parameters], g)"
    using assms by simp
  moreover have "map_of (descriptor source_name line_number g parameters) ''source_name''
      = (case map_of parameters ''source_name'' of
           Some v \<Rightarrow> Some v
         | None \<Rightarrow> Some (PStr source_name))"
    unfolding look by (simp add: map_add_def split: option.splits)
  moreover have "map_of (descriptor source_name line_number g parameters) ''line_number''
      = (case map_of parameters ''line_number'' of
           Some v \<Rightarrow> Some v
         | None \<Rightarrow> Some (PStr (str_nat line_number)))"
    unfolding look by (simp add: map_add_def split: option.splits)
  ultimately show ?thesis by blast
qed

theorem own_provenance_parameters_win_witness:
  "parse_values py [''v source_name=me line_number=7\<newline>''] ''tests.txt''
     = Inr [(1, [PStr ''v'', PStr ''source_name'', ASSIGNMENT, PStr ''me'',
                 PStr ''line_number'', ASSIGNMENT, PStr ''7''])]
   \<and> statements_loop ''tests.txt''
       [(1, [PStr ''v'', PStr ''source_name'', ASSIGNMENT, PStr ''me'',
             PStr ''line_number'', ASSIGNMENT, PStr ''7''])] [] []
     = Inr ([] @ [descriptor ''tests.txt'' 1 []
                   [(''label'', PStr ''v''), (''source_name'', PStr ''me''), (''line_number'', PStr ''7'')]], [])
   \<and> map_of (descriptor ''tests.txt'' 1 []
         [(''label'', PStr ''v''), (''source_name'', PStr ''me''), (''line_number'', PStr ''7'')])
       ''source_name'' = Some (PStr ''me'')
   \<and> map_of (descriptor ''tests.txt'' 1 []
         [(''label'', PStr ''v''), (''source_name'', PStr ''me''), (''line_number'', PStr ''7'')])
       ''line_number'' = Some (PStr ''7'')"
proof -
  let ?vs = "[PStr ''v'', PStr ''source_name'', ASSIGNMENT, PStr ''me'',
             PStr ''line_number'', ASSIGNMENT, PStr ''7'']"
  let ?p = "[(''label'', PStr ''v''), (''source_name'', PStr ''me''), (''line_number'', PStr ''7'')]"
  have parsed: "parse_values py [''v source_name=me line_number=7\<newline>''] ''tests.txt''
     = Inr [(1, ?vs)]"
    by (simp add: lib_simps module_simps)
  have h1: "?vs \<noteq> []" by simp
  have h2: "parse_line_assignments ?vs (''tests.txt'' @ '':'' @ str_nat 1 @ '': '') = Inr ?p"
    by (simp add: module_simps is_alpha_def)
  have h3: "contains ?p ''label''"
    by (simp add: contains_def)
  show ?thesis
    using own_provenance_parameters_win [OF h1 h2 h3, of "[]" "[]"] parsed by simp
qed

section \<open>The variable named label\<close>

text \<open>
  Claim C10. The statement \<^verbatim>\<open>label=v\<close>, which has no bare word of its own, resolves to the
  same parameters as the bare word \<^verbatim>\<open>v\<close> (a bare word is not empty), and the loop of
  \<^verbatim>\<open>parse_stream\<close> treats both alike: one test whose label is \<^verbatim>\<open>v\<close>, and the global
  dictionary as it was. In general the loop looks only at whether the key \<^verbatim>\<open>label\<close> is
  among the parameters, however it came there.
\<close>

theorem label_assignment_is_a_label:
  assumes "v \<noteq> []"
  shows "parse_line_assignments [PStr ''label'', ASSIGNMENT, PStr v] error_prefix
      = Inr [(''label'', PStr v)]
    \<and> parse_line_assignments [PStr v] error_prefix = Inr [(''label'', PStr v)]
    \<and> statements_loop source_name [(line_number, [PStr ''label'', ASSIGNMENT, PStr v])] tests g
      = Inr (tests @ [descriptor source_name line_number g [(''label'', PStr v)]], g)
    \<and> statements_loop source_name [(line_number, [PStr v])] tests g
      = Inr (tests @ [descriptor source_name line_number g [(''label'', PStr v)]], g)
    \<and> map_of (descriptor source_name line_number g [(''label'', PStr v)]) ''label''
      = Some (PStr v)
    \<and> (vs \<noteq> []
         \<and> parse_line_assignments vs (source_name @ '':'' @ str_nat line_number @ '': '') = Inr parameters
         \<and> map_of parameters ''label'' = Some x
       \<longrightarrow> statements_loop source_name [(line_number, vs)] tests g
             = Inr (tests @ [descriptor source_name line_number g parameters], g)
           \<and> map_of (descriptor source_name line_number g parameters) ''label'' = Some x)"
proof -
  have single: "parse_line_assignments [PStr ''label'', ASSIGNMENT, PStr v] error_prefix
      = Inr [(''label'', PStr v)]
    \<and> parse_line_assignments [PStr v] error_prefix = Inr [(''label'', PStr v)]
    \<and> statements_loop source_name [(line_number, [PStr ''label'', ASSIGNMENT, PStr v])] tests g
      = Inr (tests @ [descriptor source_name line_number g [(''label'', PStr v)]], g)
    \<and> statements_loop source_name [(line_number, [PStr v])] tests g
      = Inr (tests @ [descriptor source_name line_number g [(''label'', PStr v)]], g)
    \<and> map_of (descriptor source_name line_number g [(''label'', PStr v)]) ''label''
      = Some (PStr v)"
    using assms
    by (simp add: parse_line_assignments_def finish_def contains_def ASSIGNMENT_def is_alpha_def
        descriptor_def map_of_setitem isidentifier_def ascii_def)
  have any: "statements_loop source_name [(line_number, vs)] tests g
             = Inr (tests @ [descriptor source_name line_number g parameters], g)
           \<and> map_of (descriptor source_name line_number g parameters) ''label'' = Some x"
    if given: "vs \<noteq> []
         \<and> parse_line_assignments vs (source_name @ '':'' @ str_nat line_number @ '': '') = Inr parameters
         \<and> map_of parameters ''label'' = Some x"
  proof -
    from given have "distinct (map fst parameters)"
      using parse_line_assignments_distinct by blast
    then have "map_of (descriptor source_name line_number g parameters)
        = (map_of g)(''source_name'' \<mapsto> PStr source_name,
            ''line_number'' \<mapsto> PStr (str_nat line_number)) ++ map_of parameters"
      by (rule descriptor_lookup)
    then have "map_of (descriptor source_name line_number g parameters) ''label'' = Some x"
      using given by (simp add: map_add_def)
    moreover have "statements_loop source_name [(line_number, vs)] tests g
        = Inr (tests @ [descriptor source_name line_number g parameters], g)"
      using given by (simp add: contains_def)
    ultimately show ?thesis by blast
  qed
  show ?thesis using single any by blast
qed

theorem label_assignment_is_a_label_witness:
  "parse_stream py [''label=last\<newline>''] ''tests.txt''
     = Inr [[(''source_name'', PStr ''tests.txt''), (''line_number'', PStr ''1''),
             (''label'', PStr ''last'')]]
   \<and> parse_stream py [''last\<newline>''] ''tests.txt''
     = Inr [[(''source_name'', PStr ''tests.txt''), (''line_number'', PStr ''1''),
             (''label'', PStr ''last'')]]
   \<and> statements_loop ''tests.txt'' [(1, [PStr ''label'', ASSIGNMENT, PStr ''last''])] [] []
     = Inr ([[(''source_name'', PStr ''tests.txt''), (''line_number'', PStr ''1''),
             (''label'', PStr ''last'')]], [])"
proof -
  have "''last'' \<noteq> []" by simp
  note fact = label_assignment_is_a_label
    [OF this, of "''tests.txt:1: ''" "''tests.txt''" 1 "[]" "[]" "[]" "[]" "PAtom ANone"]
  have a: "parse_stream py [''label=last\<newline>''] ''tests.txt''
     = Inr [[(''source_name'', PStr ''tests.txt''), (''line_number'', PStr ''1''),
             (''label'', PStr ''last'')]]"
    by (simp add: lib_simps module_simps)
  have b: "parse_stream py [''last\<newline>''] ''tests.txt''
     = Inr [[(''source_name'', PStr ''tests.txt''), (''line_number'', PStr ''1''),
             (''label'', PStr ''last'')]]"
    by (simp add: lib_simps module_simps)
  show ?thesis using fact a b by (simp add: descriptor_def contains_def)
qed

section \<open>The leaves of a bracketed value\<close>

text \<open>
  The statement \<^verbatim>\<open>x=[1,2,3]\<close> gives the values \<^verbatim>\<open>x\<close>, the marker, and the list of the
  strings \<^verbatim>\<open>1\<close>, \<^verbatim>\<open>2\<close>, \<^verbatim>\<open>3\<close>, and \<^verbatim>\<open>x\<close> is bound to that list. The items of lists and
  the values of dictionary entries all become strings (\<open>stringize_items\<close>).
\<close>

lemma list_literal_is_stringized:
  "parse_values py [''x=[1,2,3]\<newline>''] source_name
     = Inr [(1, [PStr ''x'', ASSIGNMENT, PList [PStr ''1'', PStr ''2'', PStr ''3'']])]
   \<and> parse_line_assignments [PStr ''x'', ASSIGNMENT, PList [PStr ''1'', PStr ''2'', PStr ''3'']]
       error_prefix
     = Inr [(''x'', PList [PStr ''1'', PStr ''2'', PStr ''3''])]"
proof -
  have ev: "py_eval f ''[1,2,3]\<newline>'' = Returned (PList [PAtom (AInt 1), PAtom (AInt 2), PAtom (AInt 3)])"
    for f
    by (simp add: py_eval_def evaluate_def lib_simps int_of_def digit_val_def cannot_follow_def outside_def)
  have "parse_values py [''x=[1,2,3]\<newline>''] source_name
     = Inr [(1, [PStr ''x'', ASSIGNMENT, PList [PStr ''1'', PStr ''2'', PStr ''3'']])]"
    by (simp add: lib_simps module_simps ev str_int_def str_nat_digit)
  moreover have "parse_line_assignments [PStr ''x'', ASSIGNMENT, PList [PStr ''1'', PStr ''2'', PStr ''3'']]
       error_prefix
     = Inr [(''x'', PList [PStr ''1'', PStr ''2'', PStr ''3''])]"
    by (simp add: module_simps is_alpha_def)
  ultimately show ?thesis by blast
qed

text \<open>
  Claim C8 says that \<^verbatim>\<open>x=[1,2,3]\<close> binds \<^verbatim>\<open>x\<close> to the strings \<^verbatim>\<open>1\<close>, \<^verbatim>\<open>2\<close>, \<^verbatim>\<open>3\<close>, which
  holds, and that the tree of a bracketed value holds no leaf that is not a string. The
  docstrings of lines 93 and 158 say the same, but the loop of lines 160-161 rewrites the
  values of a dictionary and leaves its keys: \<^verbatim>\<open>x={1:2}\<close> binds \<^verbatim>\<open>x\<close> to a dictionary whose
  key is still the number 1.
\<close>

theorem dictionary_keys_are_not_stringized:
  "parse_values py [''x={1:2}\<newline>''] source_name
     = Inr [(1, [PStr ''x'', ASSIGNMENT, PDict [(PAtom (AInt 1), PStr ''2'')]])]
   \<and> parse_line_assignments [PStr ''x'', ASSIGNMENT, PDict [(PAtom (AInt 1), PStr ''2'')]] error_prefix
     = Inr [(''x'', PDict [(PAtom (AInt 1), PStr ''2'')])]
   \<and> \<not> only_strings (PDict [(PAtom (AInt 1), PStr ''2'')])
   \<and> map fst (case stringize (PDict kvs) of PDict kvs' \<Rightarrow> kvs' | _ \<Rightarrow> []) = map fst kvs"
proof -
  have ev: "py_eval f ''{1:2}\<newline>'' = Returned (PDict [(PAtom (AInt 1), PAtom (AInt 2))])"
    for f
    by (simp add: py_eval_def evaluate_def lib_simps int_of_def digit_val_def cannot_follow_def outside_def)
  have "parse_values py [''x={1:2}\<newline>''] source_name
     = Inr [(1, [PStr ''x'', ASSIGNMENT, PDict [(PAtom (AInt 1), PStr ''2'')]])]"
    by (simp add: lib_simps module_simps ev str_int_def str_nat_digit)
  moreover have "parse_line_assignments [PStr ''x'', ASSIGNMENT, PDict [(PAtom (AInt 1), PStr ''2'')]] error_prefix
     = Inr [(''x'', PDict [(PAtom (AInt 1), PStr ''2'')])]"
    by (simp add: module_simps is_alpha_def)
  moreover have "\<not> only_strings (PDict [(PAtom (AInt 1), PStr ''2'')])"
    by simp
  moreover have "map fst (case stringize (PDict kvs) of PDict kvs' \<Rightarrow> kvs' | _ \<Rightarrow> []) = map fst kvs"
    by (induction kvs) auto
  ultimately show ?thesis by blast
qed

theorem dictionary_keys_are_not_stringized_witness:
  "map (\<lambda>p. map only_strings (snd p)) (projr (parse_values py [''x={1:2}\<newline>''] ''tests.txt''))
     = [[True, False, False]]"
  using dictionary_keys_are_not_stringized [of "''tests.txt''" "''tests.txt:1: ''" "[]"]
  by (simp add: ASSIGNMENT_def)

section \<open>Bracketed right-hand sides\<close>

lemma tokens_loop_append:
  "tokens_loop L out pre None vs0 lt0 = Inr (vs, lt, None)
     \<Longrightarrow> tokens_loop L out (pre @ others) ending vs0 lt0 = tokens_loop L out others ending vs lt"
proof (induction pre arbitrary: vs0 lt0)
  case Nil
  then show ?case by simp
next
  case (Cons t pre)
  show ?case
    using Cons.prems Cons.IH
    by (auto split: if_splits option.splits sum.splits outcome.splits)
qed

text \<open>
  The tokens of the text reach the bracket \<open>t\<close> with the values \<open>vs\<close>, a marker last
  among them, and no token pending.
\<close>

definition reaches_bracket ::
  "pylib \<Rightarrow> outer \<Rightarrow> pyval list \<Rightarrow> token \<Rightarrow> bool" where
  "reaches_bracket L out vs t =
     (\<exists>pre rest ending.
        lib_generate_tokens L (o_combined_lines out) = (pre @ t # rest, ending)
      \<and> tokens_loop L out pre None [] None = Inr (vs, None, None)
      \<and> vs \<noteq> [] \<and> last vs = ASSIGNMENT
      \<and> tok_type t = OP \<and> (tok_string t = ''['' \<or> tok_string t = ''{''))"

lemma scan_lines_bracket:
  assumes "reaches_bracket L out vs t"
  shows "scan_lines L out =
     (case lib_eval L (frame_at out vs t) (drop (snd (tok_start t)) (o_combined_lines out)) of
        Raised e \<Rightarrow> Inl e
      | Beyond \<Rightarrow> Inl outside
      | Returned x \<Rightarrow>
          Inr ((if holds_values x then map stringize vs else vs) @ [stringize x],
               Some (stringize x)))"
proof -
  from assms obtain pre rest ending where
    toks: "lib_generate_tokens L (o_combined_lines out) = (pre @ t # rest, ending)"
    and run: "tokens_loop L out pre None [] None = Inr (vs, None, None)"
    and vs: "vs \<noteq> []" "last vs = ASSIGNMENT"
    and t: "tok_type t = OP" "tok_string t = ''['' \<or> tok_string t = ''{''"
    unfolding reaches_bracket_def by blast
  have "tokens_loop L out (pre @ t # rest) ending [] None
      = tokens_loop L out (t # rest) ending vs None"
    using run by (rule tokens_loop_append)
  also have "\<dots> =
     (case lib_eval L (frame_at out vs t) (drop (snd (tok_start t)) (o_combined_lines out)) of
        Raised e \<Rightarrow> Inl e
      | Beyond \<Rightarrow> Inl outside
      | Returned x \<Rightarrow>
          Inr ((if holds_values x then map stringize vs else vs) @ [stringize x],
               None, Some (stringize x)))"
    using t vs by (auto simp: IGNORE_TOKENS_def in_brackets_def)
  finally show ?thesis
    using toks by (simp add: scan_lines_def split: outcome.splits)
qed

text \<open>
  Claim C1 says that the text after a marker that begins with a bracket is parsed as a
  literal of strings, numbers and booleans, that anything else inside the brackets is a
  syntax error, and that no general evaluation takes place. Line 124 gives the text to
  \<^verbatim>\<open>eval\<close>, in the scope of the function. What holds, for a bracket on the first line of the
  text that is reached with a marker last in \<^verbatim>\<open>values\<close> and no token pending, is this. The
  text from the bracket's column on is evaluated, whatever expression it is.
  \<^item> When the evaluation returns a value that holds none of the parser's own lists, the
    statement is complete: its values are those read so far and the value, in which all
    items of lists and all values of dictionary entries have become strings; the loop goes
    on with the next line and an empty text.
  \<^item> When the evaluation raises \<^verbatim>\<open>SyntaxError\<close> (or \<^verbatim>\<open>TokenError\<close>), the statement is
    incomplete: the loop goes on with the next line added to the text.
  \<^item> Any other exception of the evaluation leaves \<^verbatim>\<open>parse_values\<close>.
\<close>

theorem bracket_text_is_evaluated:
  assumes "reaches_bracket L out vs t"
    and "fst (tok_start t) = 1"
    and "out = outer_of source_name combined_lines combined_lines_number parse line_number line v"
    and "lib_eval L (frame_at out vs t) (drop (snd (tok_start t)) (combined_lines @ line)) = r"
  shows "(r = Returned x \<and> \<not> holds_values x \<longrightarrow>
            lines_loop L source_name ((line_number, line) # rest) combined_lines
              combined_lines_number parse v
            = lines_loop L source_name rest [] (o_combined_lines_number out)
                (parse @ [(o_combined_lines_number out, vs @ [stringize x])]) (Some (stringize x))
          \<and> string_items (stringize x))
       \<and> (r = Raised e \<and> (e = SyntaxError \<or> e = TokenError) \<longrightarrow>
            lines_loop L source_name ((line_number, line) # rest) combined_lines
              combined_lines_number parse v
            = lines_loop L source_name rest (combined_lines @ line) (o_combined_lines_number out)
                parse v)
       \<and> (r = Raised e \<and> e \<noteq> SyntaxError \<and> e \<noteq> TokenError \<longrightarrow>
            lines_loop L source_name ((line_number, line) # rest) combined_lines
              combined_lines_number parse v
            = Inl e)"
proof -
  have buffer: "o_combined_lines out = combined_lines @ line"
    and number: "o_combined_lines_number out
      = (if combined_lines = [] then line_number else combined_lines_number)"
    using assms(3) by (simp_all add: outer_of_def)
  note scan = scan_lines_bracket [OF assms(1), unfolded buffer assms(4)]
  have returned: "lines_loop L source_name ((line_number, line) # rest) combined_lines
              combined_lines_number parse v
            = lines_loop L source_name rest [] (o_combined_lines_number out)
                (parse @ [(o_combined_lines_number out, vs @ [stringize x])]) (Some (stringize x))
          \<and> string_items (stringize x)"
    if "r = Returned x \<and> \<not> holds_values x"
    using that scan number assms(3) by (simp add: stringize_items)
  have caught: "lines_loop L source_name ((line_number, line) # rest) combined_lines
              combined_lines_number parse v
            = lines_loop L source_name rest (combined_lines @ line) (o_combined_lines_number out)
                parse v"
    if "r = Raised e \<and> (e = SyntaxError \<or> e = TokenError)"
    using that scan number assms(3) by auto
  have passed: "lines_loop L source_name ((line_number, line) # rest) combined_lines
              combined_lines_number parse v
            = Inl e"
    if "r = Raised e \<and> e \<noteq> SyntaxError \<and> e \<noteq> TokenError"
    using that scan assms(3) by (cases e) auto
  show ?thesis using returned caught passed by blast
qed


theorem bracket_text_is_evaluated_witness:
  "lines_loop py ''tests.txt'' ((1, ''x=[1,2,3]\<newline>'') # []) [] 1 [] None
     = Inr [(1, [PStr ''x'', ASSIGNMENT] @ [PList [PStr ''1'', PStr ''2'', PStr ''3'']])]
   \<and> lines_loop py ''tests.txt'' ((1, ''x=[1,\<newline>'') # []) [] 1 [] None
     = lines_loop py ''tests.txt'' [] ([] @ ''x=[1,\<newline>'') 1 [] None"
proof -
  let ?t = "\<lparr>tok_type = OP, tok_string = ''['', tok_start = (1, 2), tok_end = (1, 3)\<rparr>"
  let ?vs = "[PStr ''x'', ASSIGNMENT]"
  let ?x = "PList [PAtom (AInt 1), PAtom (AInt 2), PAtom (AInt 3)]"
  let ?a = "outer_of ''tests.txt'' [] 1 [] 1 ''x=[1,2,3]\<newline>'' None"
  let ?b = "outer_of ''tests.txt'' [] 1 [] 1 ''x=[1,\<newline>'' None"
  have ra: "reaches_bracket py ?a ?vs ?t"
    unfolding reaches_bracket_def
    apply (rule exI [of _ "take 2 (fst (lib_generate_tokens py ''x=[1,2,3]\<newline>''))"])
    apply (rule exI [of _ "drop 3 (fst (lib_generate_tokens py ''x=[1,2,3]\<newline>''))"])
    apply (rule exI [of _ "snd (lib_generate_tokens py ''x=[1,2,3]\<newline>'')"])
    apply (simp add: lib_simps module_simps)
    done
  have rb: "reaches_bracket py ?b ?vs ?t"
    unfolding reaches_bracket_def
    apply (rule exI [of _ "take 2 (fst (lib_generate_tokens py ''x=[1,\<newline>''))"])
    apply (rule exI [of _ "drop 3 (fst (lib_generate_tokens py ''x=[1,\<newline>''))"])
    apply (rule exI [of _ "snd (lib_generate_tokens py ''x=[1,\<newline>'')"])
    apply (simp add: lib_simps module_simps)
    done
  have row: "fst (tok_start ?t) = 1" by simp
  have ea: "lib_eval py (frame_at ?a ?vs ?t) (drop (snd (tok_start ?t)) ([] @ ''x=[1,2,3]\<newline>''))
      = Returned ?x"
    by (simp add: py_eval_def evaluate_def lib_simps int_of_def digit_val_def cannot_follow_def
        outside_def)
  have eb: "lib_eval py (frame_at ?b ?vs ?t) (drop (snd (tok_start ?t)) ([] @ ''x=[1,\<newline>''))
      = Raised SyntaxError"
    by (simp add: py_eval_def evaluate_def lib_simps outside_def)
  have number: "o_combined_lines_number ?a = 1"
    by (simp add: outer_of_def)
  note a = bracket_text_is_evaluated [OF ra row refl ea, where x = ?x and rest = "[]"]
  note b = bracket_text_is_evaluated [OF rb row refl eb, where e = SyntaxError and rest = "[]"]
  from a have "lines_loop py ''tests.txt'' ((1, ''x=[1,2,3]\<newline>'') # []) [] 1 [] None
      = lines_loop py ''tests.txt'' [] [] (o_combined_lines_number ?a)
          ([] @ [(o_combined_lines_number ?a, ?vs @ [stringize ?x])]) (Some (stringize ?x))"
    by simp
  then have first: "lines_loop py ''tests.txt'' ((1, ''x=[1,2,3]\<newline>'') # []) [] 1 [] None
      = Inr [(1, ?vs @ [PList [PStr ''1'', PStr ''2'', PStr ''3'']])]"
    unfolding number by (simp add: str_int_def str_nat_digit)
  from b have second: "lines_loop py ''tests.txt'' ((1, ''x=[1,\<newline>'') # []) [] 1 [] None
      = lines_loop py ''tests.txt'' [] ([] @ ''x=[1,\<newline>'') (o_combined_lines_number ?b) [] None"
    by blast
  have "o_combined_lines_number ?b = 1"
    by (simp add: outer_of_def)
  with first second show ?thesis by simp
qed

text \<open>
  Arithmetic inside the brackets is computed, a name in the scope of line 124 is looked up,
  and a name bound nowhere raises the evaluator's own exception, which is not a
  \<^verbatim>\<open>TestSpecificationError\<close>.
\<close>

theorem arithmetic_in_brackets_is_evaluated:
  "parse_values py [''x=[1+2]\<newline>''] ''tests.txt''
     = Inr [(1, [PStr ''x'', ASSIGNMENT, PList [PStr ''3'']])]
   \<and> parse_values py [''x=[line_number]\<newline>''] ''tests.txt''
     = Inr [(1, [PStr ''x'', ASSIGNMENT, PList [PStr ''1'']])]
   \<and> parse_values py [''x=[y]\<newline>''] ''tests.txt'' = Inl (OtherException ''NameError'')"
  by (simp add: lib_simps module_simps py_eval_def evaluate_def int_of_def digit_val_def
      cannot_follow_def outside_def lookup_def py_keywords_def str_int_def str_nat_digit)

text \<open>
  A value that holds the list \<^verbatim>\<open>values\<close> itself: the markers of the statement have become
  strings, the value is no string, and \<^verbatim>\<open>parse_line_assignments\<close> refuses the statement.
\<close>

lemma words_then_object_refused:
  "\<forall>v \<in> set ws. \<exists>s. v = PStr s \<Longrightarrow> y \<noteq> ASSIGNMENT \<Longrightarrow> \<forall>s. y \<noteq> PStr s
     \<Longrightarrow> \<exists>m. assignments_loop pfx (ws @ [y]) a lw = Inl (TestSpecificationError m)"
proof (induction ws arbitrary: a lw)
  case Nil
  then show ?case by (cases y) (auto simp: ASSIGNMENT_def)
next
  case (Cons w ws)
  then obtain s where w: "w = PStr s" by auto
  have rest: "\<exists>m. assignments_loop pfx (ws @ [y]) a' lw' = Inl (TestSpecificationError m)" for a' lw'
    using Cons by simp
  show ?case
    using w rest by (simp add: ASSIGNMENT_def)
qed

lemma value_holding_values_is_refused:
  assumes "holds_values x"
    and "\<forall>v \<in> set vs. v = ASSIGNMENT \<or> (\<exists>s. v = PStr s)"
  shows "\<exists>m. parse_line_assignments (map stringize vs @ [stringize x]) pfx
     = Inl (TestSpecificationError m)"
proof -
  have "\<forall>v \<in> set (map stringize vs). \<exists>s. v = PStr s"
    using assms(2) by (auto simp: ASSIGNMENT_def)
  moreover have "stringize x \<noteq> ASSIGNMENT" "\<forall>s. stringize x \<noteq> PStr s"
    using assms(1) by (cases x; simp add: ASSIGNMENT_def)+
  ultimately show ?thesis
    unfolding parse_line_assignments_def by (rule words_then_object_refused)
qed

lemma values_in_brackets_example:
  "parse_values py [''t x=[values]\<newline>''] source_name
     = Inr [(1, [PStr ''t'', PStr ''x'', PStr ''None'', PList [PValues]])]
   \<and> parse_stream py [''t x=[values]\<newline>''] source_name
     = Inl (TestSpecificationError (source_name @ '':1: error - multiple labels''))"
  by (simp add: lib_simps module_simps py_eval_def evaluate_def int_of_def digit_val_def
      cannot_follow_def outside_def lookup_def py_keywords_def)

section \<open>Content after a bracketed right-hand side\<close>

text \<open>
  The text of the statement has a bracketed right-hand side that the evaluator rejects with
  \<^verbatim>\<open>SyntaxError\<close>.
\<close>

definition rejected_literal :: "pylib \<Rightarrow> outer \<Rightarrow> bool" where
  "rejected_literal L out =
     (\<exists>vs t. reaches_bracket L out vs t
        \<and> lib_eval L (frame_at out vs t) (drop (snd (tok_start t)) (o_combined_lines out))
          = Raised SyntaxError)"

lemma rejected_literal_scan:
  assumes "rejected_literal L out"
  shows "scan_lines L out = Inl SyntaxError"
proof -
  from assms obtain vs t where "reaches_bracket L out vs t"
    and "lib_eval L (frame_at out vs t) (drop (snd (tok_start t)) (o_combined_lines out))
          = Raised SyntaxError"
    unfolding rejected_literal_def by blast
  then show ?thesis
    using scan_lines_bracket [of L out vs t] by simp
qed

lemma lines_loop_stuck:
  assumes "\<forall>l \<in> set (l0 # ls). l \<noteq> []"
    and "\<forall>k < length (l0 # ls).
      scan_lines L (outer_of s (buf @ concat (take k (l0 # ls))) (if buf = [] then n else cn)
        parse (n + k) ((l0 # ls) ! k) v) = Inl SyntaxError"
  shows "lines_loop L s (enumerate n (l0 # ls)) buf cn parse v
     = Inl (TestSpecificationError
         (s @ '':'' @ str_nat (if buf = [] then n else cn) @ '' unclosed expression''))"
  using assms
proof (induction ls arbitrary: l0 n buf cn)
  case Nil
  from Nil.prems(2) have "scan_lines L (outer_of s buf (if buf = [] then n else cn) parse n l0 v)
      = Inl SyntaxError"
    by simp
  moreover have "outer_of s buf (if buf = [] then n else cn) parse n l0 v
      = outer_of s buf cn parse n l0 v"
    by (simp add: outer_of_def)
  moreover have "buf @ l0 \<noteq> []"
    using Nil.prems(1) by simp
  ultimately show ?case by simp
next
  case (Cons l1 ls)
  from Cons.prems(2) have "scan_lines L (outer_of s buf (if buf = [] then n else cn) parse n l0 v)
      = Inl SyntaxError"
    by fastforce
  moreover have "outer_of s buf (if buf = [] then n else cn) parse n l0 v
      = outer_of s buf cn parse n l0 v"
    by (simp add: outer_of_def)
  ultimately have first: "scan_lines L (outer_of s buf cn parse n l0 v) = Inl SyntaxError"
    by simp
  have nonempty: "\<forall>l \<in> set (l1 # ls). l \<noteq> []"
    using Cons.prems(1) by simp
  have full: "buf @ l0 \<noteq> []"
    using Cons.prems(1) by simp
  let ?cn = "if buf = [] then n else cn"
  have later: "\<forall>k < length (l1 # ls).
      scan_lines L (outer_of s ((buf @ l0) @ concat (take k (l1 # ls)))
        (if buf @ l0 = [] then Suc n else ?cn) parse (Suc n + k) ((l1 # ls) ! k) v) = Inl SyntaxError"
  proof (intro allI impI)
    fix k assume "k < length (l1 # ls)"
    then have "Suc k < length (l0 # l1 # ls)" by simp
    with Cons.prems(2) have "scan_lines L (outer_of s (buf @ concat (take (Suc k) (l0 # l1 # ls))) ?cn
        parse (n + Suc k) ((l0 # l1 # ls) ! Suc k) v) = Inl SyntaxError"
      by blast
    then show "scan_lines L (outer_of s ((buf @ l0) @ concat (take k (l1 # ls)))
        (if buf @ l0 = [] then Suc n else ?cn) parse (Suc n + k) ((l1 # ls) ! k) v) = Inl SyntaxError"
      using full by auto
  qed
  from Cons.IH [OF nonempty later] first full
  show ?case by simp
qed

text \<open>
  Claim C3 says that content after a bracketed literal makes the parse fail at once with a
  syntax error, without reading further lines; the docstring of line 98 allows no text after
  a list or dictionary. The code has no test for it. The \<^verbatim>\<open>SyntaxError\<close> that the evaluation
  of such a text raises is caught at line 144, which is meant for statements that are not
  finished: the following lines are taken into the statement, valid statements among them,
  and when every further line leaves the text rejected, the parse fails only at the end of
  the stream, with the error of line 153 for the line where the statement began.
\<close>

theorem rejected_literal_keeps_accumulating:
  assumes "lines \<noteq> []"
    and "\<forall>l \<in> set lines. l \<noteq> []"
    and "\<forall>k < length lines.
      rejected_literal L (outer_of source_name (concat (take k lines)) n parse (n + k) (lines ! k) v)"
  shows "scan_lines L (outer_of source_name [] cn parse n (hd lines) v) = Inl SyntaxError
    \<and> lines_loop L source_name (enumerate n lines) [] cn parse v
      = Inl (TestSpecificationError (source_name @ '':'' @ str_nat n @ '' unclosed expression''))"
proof -
  from assms(1) obtain l0 ls where lines: "lines = l0 # ls"
    by (cases lines) auto
  have scans: "\<forall>k < length (l0 # ls).
      scan_lines L (outer_of source_name ([] @ concat (take k (l0 # ls))) (if [] = [] then n else cn)
        parse (n + k) ((l0 # ls) ! k) v) = Inl SyntaxError"
    using assms(3) lines by (auto intro: rejected_literal_scan)
  then have "scan_lines L (outer_of source_name [] n parse n (hd lines) v) = Inl SyntaxError"
    using lines by fastforce
  moreover have "outer_of source_name [] n parse n (hd lines) v
      = outer_of source_name [] cn parse n (hd lines) v"
    by (simp add: outer_of_def)
  moreover have "lines_loop L source_name (enumerate n lines) [] cn parse v
      = Inl (TestSpecificationError (source_name @ '':'' @ str_nat n @ '' unclosed expression''))"
    using lines_loop_stuck [OF _ scans] assms(2) lines by simp
  ultimately show ?thesis by simp
qed

theorem rejected_literal_keeps_accumulating_witness:
  "parse_values py [''x=[1,2] y\<newline>'', ''z=1\<newline>''] ''tests.txt''
     = Inl (TestSpecificationError ''tests.txt:1 unclosed expression'')"
proof -
  let ?t = "\<lparr>tok_type = OP, tok_string = ''['', tok_start = (1, 2), tok_end = (1, 3)\<rparr>"
  let ?vs = "[PStr ''x'', ASSIGNMENT]"
  let ?l0 = "''x=[1,2] y\<newline>''"
  let ?l1 = "''z=1\<newline>''"
  let ?o0 = "outer_of ''tests.txt'' [] 1 [] 1 ?l0 None"
  let ?o1 = "outer_of ''tests.txt'' ?l0 1 [] (Suc (Suc 0)) ?l1 None"
  have b0: "reaches_bracket py ?o0 ?vs ?t"
    unfolding reaches_bracket_def
    apply (rule exI [of _ "take 2 (fst (lib_generate_tokens py ?l0))"])
    apply (rule exI [of _ "drop 3 (fst (lib_generate_tokens py ?l0))"])
    apply (rule exI [of _ "snd (lib_generate_tokens py ?l0)"])
    apply (simp add: lib_simps module_simps)
    done
  have b1: "reaches_bracket py ?o1 ?vs ?t"
    unfolding reaches_bracket_def
    apply (rule exI [of _ "take 2 (fst (lib_generate_tokens py (?l0 @ ?l1)))"])
    apply (rule exI [of _ "drop 3 (fst (lib_generate_tokens py (?l0 @ ?l1)))"])
    apply (rule exI [of _ "snd (lib_generate_tokens py (?l0 @ ?l1))"])
    apply (simp add: lib_simps module_simps)
    done
  have e0: "lib_eval py (frame_at ?o0 ?vs ?t) (drop (snd (tok_start ?t)) (o_combined_lines ?o0))
      = Raised SyntaxError"
    by (simp add: py_eval_def evaluate_def lib_simps int_of_def digit_val_def cannot_follow_def
        outside_def outer_of_def py_keywords_def)
  have e1: "lib_eval py (frame_at ?o1 ?vs ?t) (drop (snd (tok_start ?t)) (o_combined_lines ?o1))
      = Raised SyntaxError"
    by (simp add: py_eval_def evaluate_def lib_simps int_of_def digit_val_def cannot_follow_def
        outside_def outer_of_def py_keywords_def)
  have r0: "rejected_literal py ?o0"
    unfolding rejected_literal_def using b0 e0 by blast
  have r1: "rejected_literal py ?o1"
    unfolding rejected_literal_def using b1 e1 by blast
  have every: "\<forall>k < length [?l0, ?l1].
      rejected_literal py (outer_of ''tests.txt'' (concat (take k [?l0, ?l1])) 1 [] (1 + k)
        ([?l0, ?l1] ! k) None)"
  proof (intro allI impI)
    fix k assume "k < length [?l0, ?l1]"
    then have "k = 0 \<or> k = 1" by auto
    then show "rejected_literal py (outer_of ''tests.txt'' (concat (take k [?l0, ?l1])) 1 [] (1 + k)
        ([?l0, ?l1] ! k) None)"
      using r0 r1 by auto
  qed
  have h1: "[?l0, ?l1] \<noteq> []" by simp
  have h2: "\<forall>l \<in> set [?l0, ?l1]. l \<noteq> []" by simp
  note fact = rejected_literal_keeps_accumulating [OF h1 h2 every, where cn = 1]
  from fact have b: "lines_loop py ''tests.txt'' (enumerate 1 [?l0, ?l1]) [] 1 [] None
      = Inl (TestSpecificationError (''tests.txt'' @ '':'' @ str_nat 1 @ '' unclosed expression''))"
    by (rule conjunct2)
  show ?thesis
    unfolding parse_values_def b by simp
qed

text \<open>
  Content that forms one expression with the literal is accepted without any error, on the
  same line or with the help of a later line.
\<close>

lemma content_after_literal_is_accepted:
  "parse_values py [''x=[1]+[2]\<newline>''] ''tests.txt''
     = Inr [(1, [PStr ''x'', ASSIGNMENT, PList [PStr ''1'', PStr ''2'']])]
   \<and> parse_values py [''x=[1] + (\<newline>'', ''[2])\<newline>''] ''tests.txt''
     = Inr [(1, [PStr ''x'', ASSIGNMENT, PList [PStr ''1'', PStr ''2'']])]"
  by (simp add: lib_simps module_simps py_eval_def evaluate_def int_of_def digit_val_def
      cannot_follow_def outside_def lookup_def py_keywords_def str_int_def str_nat_digit)

end
